theory Spec2Isabelle
  imports Complex_Main
begin

section \<open>Errors and sequencing\<close>

text \<open>
  The exceptions that the modelled code can raise. Floating-point numbers are modelled
  as reals: rounding, infinities and NaN are outside the model.
\<close>

datatype error = ValueError | IndexError | TypeError | AttributeError | ZeroDivisionError

definition bindE :: "error + 'a \<Rightarrow> ('a \<Rightarrow> error + 'b) \<Rightarrow> error + 'b" where
  "bindE m f = (case m of Inl e \<Rightarrow> Inl e | Inr x \<Rightarrow> f x)"

section \<open>The numpy operations used by model.py\<close>

text \<open>
  An array is its shape and its elements in row-major order. Every array that numpy
  builds has as many elements as the product of its shape (\<open>wf_array\<close>).
\<close>

record ndarray =
  shape :: "nat list"
  data :: "real list"

definition wf_array :: "ndarray \<Rightarrow> bool" where
  "wf_array a = (length (data a) = prod_list (shape a))"

text \<open>\<open>len(a)\<close>: the first dimension; a 0-d array has no length.\<close>

definition np_len :: "ndarray \<Rightarrow> error + nat" where
  "np_len a = (case shape a of [] \<Rightarrow> Inl TypeError | n # _ \<Rightarrow> Inr n)"

text \<open>\<open>a.reshape(new)\<close>: the same elements under a new shape of the same size.\<close>

definition reshape :: "nat list \<Rightarrow> ndarray \<Rightarrow> error + ndarray" where
  "reshape new a =
     (if prod_list new = prod_list (shape a) then Inr (a\<lparr>shape := new\<rparr>) else Inl ValueError)"

text \<open>
  Broadcasting. Shapes are aligned at their last dimension; two dimensions agree when
  they are equal or one of them is 1. \<open>bshape\<close> works on the reversed shapes.
\<close>

fun bshape :: "nat list \<Rightarrow> nat list \<Rightarrow> nat list option" where
  "bshape [] ys = Some ys"
| "bshape (x # xs) [] = Some (x # xs)"
| "bshape (x # xs) (y # ys) =
     (if x = y \<or> y = 1 then map_option ((#) x) (bshape xs ys)
      else if x = 1 then map_option ((#) y) (bshape xs ys)
      else None)"

definition broadcast_shape :: "nat list \<Rightarrow> nat list \<Rightarrow> nat list option" where
  "broadcast_shape s t = map_option rev (bshape (rev s) (rev t))"

text \<open>\<open>chunks k n xs\<close>: the first \<open>k\<close> consecutive blocks of \<open>n\<close> elements of \<open>xs\<close>.\<close>

definition chunks :: "nat \<Rightarrow> nat \<Rightarrow> 'a list \<Rightarrow> 'a list list" where
  "chunks k n xs = map (\<lambda>i. take n (drop (i * n) xs)) [0..<k]"

text \<open>
  \<open>broadcast_to target src xs\<close>: the elements of an array of shape \<open>src\<close> and elements
  \<open>xs\<close>, repeated along every missing dimension and every dimension of extent 1, so
  that the result has shape \<open>target\<close>.
\<close>

fun broadcast_to :: "nat list \<Rightarrow> nat list \<Rightarrow> real list \<Rightarrow> real list" where
  "broadcast_to [] src xs = xs"
| "broadcast_to (t # ts) src xs =
     (if length src \<le> length ts then concat (replicate t (broadcast_to ts src xs))
      else if hd src = t
        then concat (map (broadcast_to ts (tl src)) (chunks t (prod_list (tl src)) xs))
        else concat (replicate t (broadcast_to ts (tl src) xs)))"

definition nd_binop :: "(real \<Rightarrow> real \<Rightarrow> real) \<Rightarrow> ndarray \<Rightarrow> ndarray \<Rightarrow> error + ndarray" where
  "nd_binop f a b =
     (case broadcast_shape (shape a) (shape b) of
        None \<Rightarrow> Inl ValueError
      | Some s \<Rightarrow>
          Inr \<lparr>shape = s,
               data = map2 f (broadcast_to s (shape a) (data a))
                             (broadcast_to s (shape b) (data b))\<rparr>)"

definition nd_add :: "ndarray \<Rightarrow> ndarray \<Rightarrow> error + ndarray" where
  "nd_add = nd_binop (+)"

definition nd_sub :: "ndarray \<Rightarrow> ndarray \<Rightarrow> error + ndarray" where
  "nd_sub = nd_binop (-)"

text \<open>\<open>a += b\<close>: in place, so the broadcast shape has to be the shape of \<open>a\<close>.\<close>

definition nd_iadd :: "ndarray \<Rightarrow> ndarray \<Rightarrow> error + ndarray" where
  "nd_iadd a b =
     (case broadcast_shape (shape a) (shape b) of
        None \<Rightarrow> Inl ValueError
      | Some s \<Rightarrow>
          if s = shape a
          then Inr \<lparr>shape = s,
                    data = map2 (+) (data a) (broadcast_to s (shape b) (data b))\<rparr>
          else Inl ValueError)"

text \<open>A scalar times an array.\<close>

definition nd_scale :: "real \<Rightarrow> ndarray \<Rightarrow> ndarray" where
  "nd_scale c a = a\<lparr>data := map ((*) c) (data a)\<rparr>"

definition np_zeros :: "nat list \<Rightarrow> ndarray" where
  "np_zeros s = \<lparr>shape = s, data = replicate (prod_list s) 0\<rparr>"

text \<open>The elements of an \<open>n\<close> by \<open>m\<close> matrix given by a function of row and column.\<close>

definition grid :: "nat \<Rightarrow> nat \<Rightarrow> (nat \<Rightarrow> nat \<Rightarrow> real) \<Rightarrow> real list" where
  "grid n m f = concat (map (\<lambda>i. map (f i) [0..<m]) [0..<n])"

definition np_identity :: "nat \<Rightarrow> ndarray" where
  "np_identity n = \<lparr>shape = [n, n], data = grid n n (\<lambda>i j. if i = j then 1 else 0)\<rparr>"

text \<open>\<open>np.diag(v)\<close> for a 1-d array \<open>v\<close>, as at its call sites.\<close>

definition np_diag :: "ndarray \<Rightarrow> ndarray" where
  "np_diag v =
     (let n = prod_list (shape v)
      in \<lparr>shape = [n, n], data = grid n n (\<lambda>i j. if i = j then data v ! i else 0)\<rparr>)"

text \<open>\<open>a.T\<close>: arrays of rank 0 and 1 are their own transpose.\<close>

definition np_T :: "ndarray \<Rightarrow> ndarray" where
  "np_T a =
     (case shape a of
        [n, m] \<Rightarrow> \<lparr>shape = [m, n], data = grid m n (\<lambda>j i. data a ! (i * m + j))\<rparr>
      | _ \<Rightarrow> a)"

text \<open>
  \<open>np.dot\<close> at the ranks that model.py applies it to: vector with vector, matrix with
  vector, matrix with matrix. Operands whose inner dimensions differ raise ValueError.
\<close>

definition np_dot_vv :: "ndarray \<Rightarrow> ndarray \<Rightarrow> error + real" where
  "np_dot_vv a b =
     (case (shape a, shape b) of
        ([n], [m]) \<Rightarrow>
          if n = m then Inr (sum_list (map (\<lambda>k. data a ! k * data b ! k) [0..<n]))
          else Inl ValueError
      | _ \<Rightarrow> Inl ValueError)"

definition np_dot_mv :: "ndarray \<Rightarrow> ndarray \<Rightarrow> error + ndarray" where
  "np_dot_mv a b =
     (case (shape a, shape b) of
        ([n, k], [m]) \<Rightarrow>
          if k = m
          then Inr \<lparr>shape = [n],
                    data = map (\<lambda>i. sum_list (map (\<lambda>j. data a ! (i * k + j) * data b ! j) [0..<k]))
                               [0..<n]\<rparr>
          else Inl ValueError
      | _ \<Rightarrow> Inl ValueError)"

definition np_dot_mm :: "ndarray \<Rightarrow> ndarray \<Rightarrow> error + ndarray" where
  "np_dot_mm a b =
     (case (shape a, shape b) of
        ([n, k], [m, p]) \<Rightarrow>
          if k = m
          then Inr \<lparr>shape = [n, p],
                    data = grid n p (\<lambda>i j.
                      sum_list (map (\<lambda>l. data a ! (i * k + l) * data b ! (l * p + j)) [0..<k]))\<rparr>
          else Inl ValueError
      | _ \<Rightarrow> Inl ValueError)"

text \<open>\<open>np.outer(a, b)\<close> of two 1-d arrays.\<close>

definition np_outer :: "ndarray \<Rightarrow> ndarray \<Rightarrow> ndarray" where
  "np_outer a b =
     (let n = prod_list (shape a); m = prod_list (shape b)
      in \<lparr>shape = [n, m], data = grid n m (\<lambda>i j. data a ! i * data b ! j)\<rparr>)"

text \<open>
  An index into a dimension of extent \<open>n\<close>: negative indices count from the end, and
  an index outside \<open>-n \<dots> n-1\<close> raises IndexError.
\<close>

definition py_index :: "nat \<Rightarrow> int \<Rightarrow> error + nat" where
  "py_index n i =
     (let j = (if i < 0 then int n + i else i)
      in if 0 \<le> j \<and> j < int n then Inr (nat j) else Inl IndexError)"

text \<open>\<open>a[i, j] = v\<close> on a 2-d array.\<close>

definition setitem2 :: "ndarray \<Rightarrow> int \<Rightarrow> int \<Rightarrow> real \<Rightarrow> error + ndarray" where
  "setitem2 a i j v =
     (case shape a of
        [n, m] \<Rightarrow>
          bindE (py_index n i) (\<lambda>r.
          bindE (py_index m j) (\<lambda>c.
          Inr (a\<lparr>data := (data a)[r * m + c := v]\<rparr>)))
      | _ \<Rightarrow> Inl IndexError)"

text \<open>\<open>enumerate(xs)\<close>.\<close>

definition enumerate_list :: "'a list \<Rightarrow> (nat \<times> 'a) list" where
  "enumerate_list xs = zip [0..<length xs] xs"

section \<open>HarmonicModel\<close>

text \<open>
  The symmetric eigen-decomposition \<open>np.linalg.eigh\<close> is a parameter \<open>eigh\<close> of the
  model: it maps a matrix to its eigenvalues and the matrix whose columns are the
  eigenvectors.
\<close>

type_synonym eigh_fn = "ndarray \<Rightarrow> ndarray \<times> ndarray"

record HarmonicModel =
  coords0 :: ndarray
  gradient :: ndarray
  hess :: ndarray
  reference :: real
  ridge :: real
  evals :: ndarray
  evecs :: ndarray
  ievals :: ndarray
  ihess :: ndarray

text \<open>
  The loop \<open>for i, eigval in enumerate(evals): if abs(eigval) > ridge: ievals[i] = 1.0/eigval\<close>,
  which diagonalize_hess and get_constrained_ihess both contain.
\<close>

fun ievals_loop :: "real \<Rightarrow> (nat \<times> real) list \<Rightarrow> real list \<Rightarrow> real list" where
  "ievals_loop rdg [] iev = iev"
| "ievals_loop rdg ((i, eigval) # rest) iev =
     ievals_loop rdg rest (if \<bar>eigval\<bar> > rdg then iev[i := 1 / eigval] else iev)"

text \<open>
  diagonalize_hess, from the fields that the constructor has already set. It returns
  the four fields that it assigns: evals, evecs, ievals, ihess. The eigenvalues are a
  1-d array, so \<open>enumerate\<close> runs over its elements.
\<close>

definition diagonalize_hess ::
  "eigh_fn \<Rightarrow> ndarray \<Rightarrow> ndarray \<Rightarrow> real \<Rightarrow> error + (ndarray \<times> ndarray \<times> ndarray \<times> ndarray)" where
  "diagonalize_hess eigh c0 h rdg =
     bindE (np_len c0) (\<lambda>Natoms.
     bindE (reshape [3 * Natoms, 3 * Natoms] h) (\<lambda>h2.
     (case eigh h2 of (evs, vecs) \<Rightarrow>
     bindE (np_len evs) (\<lambda>n.
     (let iev = (np_zeros [n])\<lparr>data := ievals_loop rdg (enumerate_list (data evs))
                                         (data (np_zeros [n]))\<rparr>
      in
     bindE (np_dot_mm (np_diag iev) (np_T vecs)) (\<lambda>dv.
     bindE (np_dot_mm vecs dv) (\<lambda>ih2.
     bindE (reshape [Natoms, 3, Natoms, 3] ih2) (\<lambda>ih.
     Inr (evs, vecs, iev, ih)))))))))"

text \<open>
  The constructor. Its \<open>name\<close> argument is not stored by the source and is left out.
\<close>

definition HarmonicModel_init ::
  "eigh_fn \<Rightarrow> ndarray \<Rightarrow> ndarray \<Rightarrow> ndarray \<Rightarrow> real \<Rightarrow> real \<Rightarrow> error + HarmonicModel" where
  "HarmonicModel_init eigh c0 g h ref rdg =
     bindE (diagonalize_hess eigh c0 h rdg) (\<lambda>(evs, vecs, iev, ih).
     Inr \<lparr>coords0 = c0, gradient = g, hess = h, reference = ref, ridge = rdg,
          evals = evs, evecs = vecs, ievals = iev, ihess = ih\<rparr>)"

definition HarmonicModel_get_energy :: "HarmonicModel \<Rightarrow> ndarray \<Rightarrow> error + real" where
  "HarmonicModel_get_energy self coords =
     bindE (np_len (coords0 self)) (\<lambda>Natoms.
     bindE (nd_sub coords (coords0 self)) (\<lambda>d.
     bindE (reshape [3 * Natoms] d) (\<lambda>dx.
     bindE (reshape [3 * Natoms] (gradient self)) (\<lambda>g.
     bindE (np_dot_vv g dx) (\<lambda>e1.
     bindE (reshape [3 * Natoms, 3 * Natoms] (hess self)) (\<lambda>h2.
     bindE (np_dot_mv h2 dx) (\<lambda>hdx.
     bindE (np_dot_vv dx hdx) (\<lambda>e2.
     Inr (reference self + e1 + 0.5 * e2)))))))))"

definition HarmonicModel_get_gradient :: "HarmonicModel \<Rightarrow> ndarray \<Rightarrow> error + ndarray" where
  "HarmonicModel_get_gradient self coords =
     bindE (np_len (coords0 self)) (\<lambda>Natoms.
     bindE (nd_sub coords (coords0 self)) (\<lambda>d.
     bindE (reshape [3 * Natoms] d) (\<lambda>dx.
     bindE (reshape [3 * Natoms, 3 * Natoms] (hess self)) (\<lambda>h2.
     bindE (np_dot_mv h2 dx) (\<lambda>hdx.
     bindE (reshape [Natoms, 3] hdx) (\<lambda>hdx2.
     nd_add (gradient self) hdx2))))))"

definition HarmonicModel_get_hessian :: "HarmonicModel \<Rightarrow> ndarray \<Rightarrow> ndarray" where
  "HarmonicModel_get_hessian self coords = hess self"

text \<open>The loop \<open>for i in free_indices: D[i,i] = 0.0\<close>.\<close>

fun free_loop :: "int list \<Rightarrow> ndarray \<Rightarrow> error + ndarray" where
  "free_loop [] D = Inr D"
| "free_loop (i # rest) D = bindE (setitem2 D i i 0) (free_loop rest)"

definition get_constrained_hess :: "HarmonicModel \<Rightarrow> int list \<Rightarrow> real \<Rightarrow> error + ndarray" where
  "get_constrained_hess self free_indices spring =
     bindE (np_len (coords0 self)) (\<lambda>Natoms.
     bindE (free_loop free_indices (nd_scale spring (np_identity (3 * Natoms)))) (\<lambda>D.
     bindE (reshape [Natoms, 3, Natoms, 3] D) (\<lambda>D4.
     nd_add (hess self) D4)))"

definition get_constrained_ihess ::
  "eigh_fn \<Rightarrow> HarmonicModel \<Rightarrow> int list \<Rightarrow> real \<Rightarrow> error + ndarray" where
  "get_constrained_ihess eigh self free_indices spring =
     bindE (np_len (coords0 self)) (\<lambda>Natoms.
     bindE (get_constrained_hess self free_indices spring) (\<lambda>ch.
     bindE (reshape [3 * Natoms, 3 * Natoms] ch) (\<lambda>h2.
     (case eigh h2 of (evs, vecs) \<Rightarrow>
     bindE (np_len evs) (\<lambda>n.
     (let iev = (np_zeros [n])\<lparr>data := ievals_loop (ridge self) (enumerate_list (data evs))
                                         (data (np_zeros [n]))\<rparr>
      in
     bindE (np_dot_mm (np_diag iev) (np_T vecs)) (\<lambda>dv.
     bindE (np_dot_mm vecs dv) (\<lambda>ih2.
     reshape [Natoms, 3, Natoms, 3] ih2))))))))"

subsection \<open>The expansion as the specification states it\<close>

text \<open>
  The quadratic expansion around the reference geometry, written out by components:
  \<open>N\<close> is the number of atoms, \<open>displacement\<close> the flattened difference between
  the queried and the reference coordinates.
\<close>

definition displacement :: "HarmonicModel \<Rightarrow> ndarray \<Rightarrow> nat \<Rightarrow> real" where
  "displacement m coords i = data coords ! i - data (coords0 m) ! i"

definition expansion_energy :: "HarmonicModel \<Rightarrow> nat \<Rightarrow> ndarray \<Rightarrow> real" where
  "expansion_energy m N coords =
     reference m
     + (\<Sum>i<3 * N. data (gradient m) ! i * displacement m coords i)
     + 1 / 2 * (\<Sum>i<3 * N. displacement m coords i *
                  (\<Sum>j<3 * N. data (hess m) ! (i * (3 * N) + j) * displacement m coords j))"

definition expansion_gradient :: "HarmonicModel \<Rightarrow> nat \<Rightarrow> ndarray \<Rightarrow> ndarray" where
  "expansion_gradient m N coords =
     \<lparr>shape = [N, 3],
      data = map (\<lambda>i. data (gradient m) ! i
                        + (\<Sum>j<3 * N. data (hess m) ! (i * (3 * N) + j) * displacement m coords j))
                 [0..<3 * N]\<rparr>"

subsection \<open>The pseudo-inverse as the specification states it\<close>

text \<open>
  The inverse of an eigenvalue under the ridge rule, and the matrix
  \<open>V diag(w) V\<^sup>T\<close> by components, for eigenvalues \<open>lam\<close> and eigenvector matrix
  \<open>V\<close> of a model with \<open>N\<close> atoms.
\<close>

definition inverse_eigenvalue :: "real \<Rightarrow> real \<Rightarrow> real" where
  "inverse_eigenvalue rdg lam = (if \<bar>lam\<bar> > rdg then 1 / lam else 0)"

definition spectral_pseudo_inverse :: "nat \<Rightarrow> real \<Rightarrow> ndarray \<Rightarrow> ndarray \<Rightarrow> ndarray" where
  "spectral_pseudo_inverse N rdg lam V =
     \<lparr>shape = [N, 3, N, 3],
      data = grid (3 * N) (3 * N) (\<lambda>i j.
        \<Sum>k<3 * N. data V ! (i * (3 * N) + k) * inverse_eigenvalue rdg (data lam ! k)
                     * data V ! (j * (3 * N) + k))\<rparr>"

subsection \<open>The penalty of the constrained Hessian as the specification states it\<close>

text \<open>
  The diagonal matrix with \<open>spring\<close> at every fixed degree of freedom and 0
  everywhere else, for \<open>n\<close> degrees of freedom.
\<close>

definition penalty_matrix :: "nat \<Rightarrow> int list \<Rightarrow> real \<Rightarrow> real list" where
  "penalty_matrix n free_indices spring =
     grid n n (\<lambda>a b. if a = b \<and> int a \<notin> set free_indices then spring else 0)"

subsection \<open>A harmonic model with two atoms\<close>

text \<open>
  Two atoms on the x axis; the Hessian is diagonal with three zero eigenvalues.
  The cached fields are those that the constructor computes from \<open>diagonal_eigh\<close>.
\<close>

definition example_hess :: ndarray where
  "example_hess = \<lparr>shape = [2, 3, 2, 3],
     data = [0,0,0,0,0,0, 0,0,0,0,0,0, 0,0,0,0,0,0, 0,0,0,1,0,0, 0,0,0,0,2,0, 0,0,0,0,0,4]\<rparr>"

definition example_coords0 :: ndarray where
  "example_coords0 = \<lparr>shape = [2, 3], data = [0,0,0, 1,0,0]\<rparr>"

definition example_gradient :: ndarray where
  "example_gradient = \<lparr>shape = [2, 3], data = [1,2,3, 4,5,6]\<rparr>"

definition example_model :: HarmonicModel where
  "example_model = \<lparr>coords0 = example_coords0, gradient = example_gradient, hess = example_hess,
     reference = 10, ridge = 1 / 10,
     evals = \<lparr>shape = [6], data = [0,0,0,1,2,4]\<rparr>,
     evecs = np_identity 6,
     ievals = \<lparr>shape = [6], data = [0,0,0,1,1/2,1/4]\<rparr>,
     ihess = \<lparr>shape = [2, 3, 2, 3],
     data = [0,0,0,0,0,0, 0,0,0,0,0,0, 0,0,0,0,0,0, 0,0,0,1,0,0, 0,0,0,0,1/2,0, 0,0,0,0,0,1/4]\<rparr>\<rparr>"

text \<open>
  An eigen-decomposition for diagonal matrices with ascending diagonal: the eigenvalues
  are the diagonal entries, the eigenvectors the unit vectors.
\<close>

definition diagonal_eigh :: eigh_fn where
  "diagonal_eigh a =
     (let n = (case shape a of [] \<Rightarrow> 0 | k # _ \<Rightarrow> k)
      in (\<lparr>shape = [n], data = map (\<lambda>i. data a ! (i * n + i)) [0..<n]\<rparr>, np_identity n))"

section \<open>The distance primitive\<close>

text \<open>
  \<open>IC([i, j], bond_length)\<close> comes from modules outside model.py. Its three operations
  on a coordinate array are parameters of the model: the distance of atoms \<open>i\<close> and
  \<open>j\<close>, its gradient and its Hessian with respect to all Cartesian coordinates.
\<close>

record primitive =
  ic_value :: "nat \<Rightarrow> nat \<Rightarrow> ndarray \<Rightarrow> real"
  ic_grad :: "nat \<Rightarrow> nat \<Rightarrow> ndarray \<Rightarrow> ndarray"
  ic_hess :: "nat \<Rightarrow> nat \<Rightarrow> ndarray \<Rightarrow> ndarray"

section \<open>CoulombModel\<close>

text \<open>
  \<open>shift\<close> is \<open>None\<close> while the constructor has not assigned the attribute yet.
\<close>

record CoulombModel =
  coords :: ndarray
  charges :: "real list"
  name :: string
  exclude_pairs :: "int list list"
  shift :: "real option"

text \<open>
  The inner loop of get_energy, over \<open>enumerate(self.charges)\<close>. At a distance of zero
  the division raises ZeroDivisionError for Python's floats and gives an infinity or
  NaN for numpy's, which the reals do not have: the model reports ZeroDivisionError
  there and never returns a finite value for such a pair.
\<close>

fun coulomb_inner ::
  "primitive \<Rightarrow> int list list \<Rightarrow> ndarray \<Rightarrow> nat \<Rightarrow> real \<Rightarrow> (nat \<times> real) list \<Rightarrow> real
   \<Rightarrow> error + real" where
  "coulomb_inner ic ep crds i qi [] energy = Inr energy"
| "coulomb_inner ic ep crds i qi ((j, qj) # rest) energy =
     (if j \<le> i then coulomb_inner ic ep crds i qi rest energy
      else if [int i, int j] \<in> set ep \<or> [int j, int i] \<in> set ep
        then coulomb_inner ic ep crds i qi rest energy
      else if ic_value ic i j crds = 0 then Inl ZeroDivisionError
      else coulomb_inner ic ep crds i qi rest (energy + qi * qj / ic_value ic i j crds))"

text \<open>The outer loop of get_energy; \<open>qs\<close> is the enumeration that each inner loop runs over.\<close>

fun coulomb_outer ::
  "primitive \<Rightarrow> int list list \<Rightarrow> ndarray \<Rightarrow> (nat \<times> real) list \<Rightarrow> (nat \<times> real) list \<Rightarrow> real
   \<Rightarrow> error + real" where
  "coulomb_outer ic ep crds qs [] energy = Inr energy"
| "coulomb_outer ic ep crds qs ((i, qi) # rest) energy =
     (case coulomb_inner ic ep crds i qi qs energy of
        Inl e \<Rightarrow> Inl e
      | Inr energy' \<Rightarrow> coulomb_outer ic ep crds qs rest energy')"

definition CoulombModel_get_energy ::
  "primitive \<Rightarrow> CoulombModel \<Rightarrow> ndarray \<Rightarrow> bool \<Rightarrow> error + real" where
  "CoulombModel_get_energy ic self crds shft =
     bindE (if shft
            then (case shift self of None \<Rightarrow> Inl AttributeError | Some s \<Rightarrow> Inr (0 - s))
            else Inr 0) (\<lambda>energy.
     coulomb_outer ic (exclude_pairs self) crds (enumerate_list (charges self))
       (enumerate_list (charges self)) energy)"

definition CoulombModel_init ::
  "primitive \<Rightarrow> ndarray \<Rightarrow> real list \<Rightarrow> string \<Rightarrow> int list list \<Rightarrow> error + CoulombModel" where
  "CoulombModel_init ic crds chg nm ep =
     (let self = \<lparr>coords = crds, charges = chg, name = nm, exclude_pairs = ep, shift = None\<rparr>
      in bindE (CoulombModel_get_energy ic self crds False) (\<lambda>s.
         Inr (self\<lparr>shift := Some s\<rparr>)))"

section \<open>electrostatics\<close>

record sample =
  ac :: "real list"
  ffatypes :: "string list"
  coordinates :: ndarray

text \<open>\<open>xs[i]\<close> for an index that a range produced.\<close>

definition py_getitem :: "'a list \<Rightarrow> nat \<Rightarrow> error + 'a" where
  "py_getitem xs i = (if i < length xs then Inr (xs ! i) else Inl IndexError)"

text \<open>
  The loop \<open>for j in xrange(i)\<close>; the state is the pair of \<open>forces\<close> and \<open>hess\<close>.
  The first operation of the update divides by \<open>r**2\<close>. At a distance of zero
  Python's floats raise ZeroDivisionError and numpy's give infinities or NaN, which
  the reals do not have: the model reports ZeroDivisionError there and never returns
  a finite value for such a pair.
\<close>

fun electrostatics_inner ::
  "primitive \<Rightarrow> sample \<Rightarrow> int list list \<Rightarrow> string list \<Rightarrow> nat \<Rightarrow> nat list \<Rightarrow>
   ndarray \<times> ndarray \<Rightarrow> error + ndarray \<times> ndarray" where
  "electrostatics_inner ic smp ep et i [] st = Inr st"
| "electrostatics_inner ic smp ep et i (j # js) (forces, hs) =
     (case py_getitem (ffatypes smp) j of
        Inl e \<Rightarrow> Inl e
      | Inr tj \<Rightarrow>
          if tj \<in> set et then electrostatics_inner ic smp ep et i js (forces, hs)
          else if [int i, int j] \<in> set ep \<or> [int j, int i] \<in> set ep
            then electrostatics_inner ic smp ep et i js (forces, hs)
          else
            (let r = ic_value ic i j (coordinates smp);
                 qgrad = ic_grad ic i j (coordinates smp)
             in if r = 0 then Inl ZeroDivisionError
                else
                 (case nd_sub (nd_scale (2 / r) (np_outer qgrad qgrad))
                              (ic_hess ic i j (coordinates smp)) of
                    Inl e \<Rightarrow> Inl e
                  | Inr m \<Rightarrow>
                     (case nd_iadd hs (nd_scale (ac smp ! i * ac smp ! j / r\<^sup>2) m) of
                        Inl e \<Rightarrow> Inl e
                      | Inr hs' \<Rightarrow>
                         (case nd_iadd forces (nd_scale (- (ac smp ! i) * ac smp ! j / r\<^sup>2) qgrad) of
                            Inl e \<Rightarrow> Inl e
                          | Inr forces' \<Rightarrow>
                              electrostatics_inner ic smp ep et i js (forces', hs'))))))"

text \<open>The loop \<open>for i in xrange(len(qs))\<close>.\<close>

fun electrostatics_outer ::
  "primitive \<Rightarrow> sample \<Rightarrow> int list list \<Rightarrow> string list \<Rightarrow> nat list \<Rightarrow>
   ndarray \<times> ndarray \<Rightarrow> error + ndarray \<times> ndarray" where
  "electrostatics_outer ic smp ep et [] st = Inr st"
| "electrostatics_outer ic smp ep et (i # rest) st =
     (case py_getitem (ffatypes smp) i of
        Inl e \<Rightarrow> Inl e
      | Inr ti \<Rightarrow>
          if ti \<in> set et then electrostatics_outer ic smp ep et rest st
          else (case electrostatics_inner ic smp ep et i [0..<i] st of
                  Inl e \<Rightarrow> Inl e
                | Inr st' \<Rightarrow> electrostatics_outer ic smp ep et rest st'))"

definition electrostatics ::
  "primitive \<Rightarrow> sample \<Rightarrow> int list list \<Rightarrow> string list \<Rightarrow> error + ndarray \<times> ndarray" where
  "electrostatics ic smp ep et =
     (let qs = ac smp;
          forces = np_zeros [3 * length qs];
          hs = np_zeros [3 * length qs, 3 * length qs]
      in electrostatics_outer ic smp ep et [0..<length qs] (forces, hs))"

subsection \<open>The pairwise sums as the specification states them\<close>

text \<open>An index pair is excluded when the exclusion list holds it in either order.\<close>

definition excluded :: "int list list \<Rightarrow> nat \<Rightarrow> nat \<Rightarrow> bool" where
  "excluded ep i j = ([int i, int j] \<in> set ep \<or> [int j, int i] \<in> set ep)"

text \<open>The pairs \<open>i < j\<close> of the Coulomb energy, and the energy as a sum over them.\<close>

definition coulomb_pairs :: "nat \<Rightarrow> int list list \<Rightarrow> (nat \<times> nat) list" where
  "coulomb_pairs n ep =
     filter (\<lambda>(i, j). i < j \<and> \<not> excluded ep i j) (List.product [0..<n] [0..<n])"

definition raw_coulomb_energy :: "primitive \<Rightarrow> real list \<Rightarrow> int list list \<Rightarrow> ndarray \<Rightarrow> real" where
  "raw_coulomb_energy ic chg ep crds =
     sum_list (map (\<lambda>(i, j). chg ! i * chg ! j / ic_value ic i j crds)
                   (coulomb_pairs (length chg) ep))"

text \<open>
  The ordered pairs \<open>(i, j)\<close> with \<open>j < i\<close> that electrostatics does not skip, and the
  force vector and Hessian matrix as sums over them, by components.
\<close>

definition active_pairs :: "sample \<Rightarrow> int list list \<Rightarrow> string list \<Rightarrow> (nat \<times> nat) list" where
  "active_pairs smp ep et =
     filter (\<lambda>(i, j). j < i \<and> ffatypes smp ! i \<notin> set et \<and> ffatypes smp ! j \<notin> set et
                        \<and> \<not> excluded ep i j)
            (List.product [0..<length (ac smp)] [0..<length (ac smp)])"

definition pair_force :: "primitive \<Rightarrow> sample \<Rightarrow> nat \<Rightarrow> nat \<times> nat \<Rightarrow> real" where
  "pair_force ic smp k p =
     (case p of (i, j) \<Rightarrow>
        let r = ic_value ic i j (coordinates smp);
            g = data (ic_grad ic i j (coordinates smp))
        in - (ac smp ! i * ac smp ! j / r\<^sup>2) * g ! k)"

definition pair_hess :: "primitive \<Rightarrow> sample \<Rightarrow> nat \<Rightarrow> nat \<Rightarrow> nat \<times> nat \<Rightarrow> real" where
  "pair_hess ic smp a b p =
     (case p of (i, j) \<Rightarrow>
        let n = 3 * length (ac smp);
            r = ic_value ic i j (coordinates smp);
            g = data (ic_grad ic i j (coordinates smp));
            h = data (ic_hess ic i j (coordinates smp))
        in ac smp ! i * ac smp ! j / r\<^sup>2 * (2 / r * (g ! a * g ! b) - h ! (a * n + b)))"

definition total_forces :: "primitive \<Rightarrow> sample \<Rightarrow> int list list \<Rightarrow> string list \<Rightarrow> ndarray" where
  "total_forces ic smp ep et =
     \<lparr>shape = [3 * length (ac smp)],
      data = map (\<lambda>k. sum_list (map (pair_force ic smp k) (active_pairs smp ep et)))
                 [0..<3 * length (ac smp)]\<rparr>"

definition total_hess :: "primitive \<Rightarrow> sample \<Rightarrow> int list list \<Rightarrow> string list \<Rightarrow> ndarray" where
  "total_hess ic smp ep et =
     \<lparr>shape = [3 * length (ac smp), 3 * length (ac smp)],
      data = grid (3 * length (ac smp)) (3 * length (ac smp))
               (\<lambda>a b. sum_list (map (pair_hess ic smp a b) (active_pairs smp ep et)))\<rparr>"

text \<open>
  What electrostatics needs from the primitive at a pair of atoms of a sample with N
  charges: a gradient of length 3N and a Hessian of shape 3N x 3N.
\<close>

definition primitive_ok :: "primitive \<Rightarrow> sample \<Rightarrow> nat \<Rightarrow> nat \<Rightarrow> bool" where
  "primitive_ok ic smp i j =
     (shape (ic_grad ic i j (coordinates smp)) = [3 * length (ac smp)]
      \<and> wf_array (ic_grad ic i j (coordinates smp))
      \<and> shape (ic_hess ic i j (coordinates smp)) = [3 * length (ac smp), 3 * length (ac smp)]
      \<and> wf_array (ic_hess ic i j (coordinates smp)))"

text \<open>
  The state of the loops after the pairs \<open>ps\<close> have been accumulated onto the arrays
  \<open>F\<close> and \<open>H\<close>, and the pairs that one pass of the outer loop accumulates.
\<close>

definition add_forces :: "primitive \<Rightarrow> sample \<Rightarrow> ndarray \<Rightarrow> (nat \<times> nat) list \<Rightarrow> ndarray" where
  "add_forces ic smp F ps =
     \<lparr>shape = [3 * length (ac smp)],
      data = map (\<lambda>k. data F ! k + sum_list (map (pair_force ic smp k) ps))
                 [0..<3 * length (ac smp)]\<rparr>"

definition add_hess :: "primitive \<Rightarrow> sample \<Rightarrow> ndarray \<Rightarrow> (nat \<times> nat) list \<Rightarrow> ndarray" where
  "add_hess ic smp H ps =
     \<lparr>shape = [3 * length (ac smp), 3 * length (ac smp)],
      data = grid (3 * length (ac smp)) (3 * length (ac smp))
               (\<lambda>a b. data H ! (a * (3 * length (ac smp)) + b)
                        + sum_list (map (pair_hess ic smp a b) ps))\<rparr>"

definition pair_row :: "sample \<Rightarrow> int list list \<Rightarrow> string list \<Rightarrow> nat \<Rightarrow> (nat \<times> nat) list" where
  "pair_row smp ep et i =
     (if ffatypes smp ! i \<in> set et then []
      else map (Pair i) (filter (\<lambda>j. ffatypes smp ! j \<notin> set et \<and> \<not> excluded ep i j) [0..<i]))"

subsection \<open>Three charges on a line\<close>

text \<open>
  Modelled from the spec: the distance primitive (\<open>IC\<close> with \<open>bond_length\<close>), which is
  not part of model.py: the Euclidean distance of two atoms, its gradient and its
  Hessian with respect to all coordinates, with zero entries for the other atoms.
  It instantiates the parameter in the examples.
\<close>

definition xyz :: "ndarray \<Rightarrow> nat \<Rightarrow> nat \<Rightarrow> real" where
  "xyz c i a = data c ! (3 * i + a)"

definition bond_value :: "nat \<Rightarrow> nat \<Rightarrow> ndarray \<Rightarrow> real" where
  "bond_value i j c =
     sqrt ((xyz c i 0 - xyz c j 0)\<^sup>2 + (xyz c i 1 - xyz c j 1)\<^sup>2 + (xyz c i 2 - xyz c j 2)\<^sup>2)"

definition bond_unit :: "nat \<Rightarrow> nat \<Rightarrow> ndarray \<Rightarrow> nat \<Rightarrow> real" where
  "bond_unit i j c a = (xyz c i a - xyz c j a) / bond_value i j c"

definition natoms :: "ndarray \<Rightarrow> nat" where
  "natoms c = (case shape c of [] \<Rightarrow> 0 | n # _ \<Rightarrow> n)"

definition bond_grad :: "nat \<Rightarrow> nat \<Rightarrow> ndarray \<Rightarrow> ndarray" where
  "bond_grad i j c =
     \<lparr>shape = [3 * natoms c],
      data = map (\<lambda>k. if k div 3 = i then bond_unit i j c (k mod 3)
                       else if k div 3 = j then - bond_unit i j c (k mod 3)
                       else 0)
                 [0..<3 * natoms c]\<rparr>"

definition bond_hess :: "nat \<Rightarrow> nat \<Rightarrow> ndarray \<Rightarrow> ndarray" where
  "bond_hess i j c =
     \<lparr>shape = [3 * natoms c, 3 * natoms c],
      data = grid (3 * natoms c) (3 * natoms c) (\<lambda>k l.
        (if k div 3 = l div 3 \<and> (k div 3 = i \<or> k div 3 = j) then 1
         else if (k div 3 = i \<and> l div 3 = j) \<or> (k div 3 = j \<and> l div 3 = i) then - 1
         else 0)
        * ((if k mod 3 = l mod 3 then 1 else 0) - bond_unit i j c (k mod 3) * bond_unit i j c (l mod 3))
        / bond_value i j c)\<rparr>"

definition bond_length :: primitive where
  "bond_length = \<lparr>ic_value = bond_value, ic_grad = bond_grad, ic_hess = bond_hess\<rparr>"

text \<open>Charges 1, -1, 1 at unit spacing on the x axis.\<close>

definition line_coords :: ndarray where
  "line_coords = \<lparr>shape = [3, 3], data = [0,0,0, 1,0,0, 2,0,0]\<rparr>"

text \<open>Two charges at the same place.\<close>

definition coincident_sample :: sample where
  "coincident_sample =
     \<lparr>ac = [1, 1], ffatypes = [''H'', ''H''],
      coordinates = \<lparr>shape = [2, 3], data = [0,0,0, 0,0,0]\<rparr>\<rparr>"

definition line_sample :: sample where
  "line_sample = \<lparr>ac = [1, - 1, 1], ffatypes = [''H'', ''O'', ''H''], coordinates = line_coords\<rparr>"

section \<open>Basic facts\<close>

lemma bindE_Inr [simp]: "bindE (Inr x) f = f x"
  by (simp add: bindE_def)

lemma bindE_Inl [simp]: "bindE (Inl e) f = Inl e"
  by (simp add: bindE_def)

subsection \<open>Matrices in row-major order\<close>

lemma length_grid [simp]: "length (grid n m f) = n * m"
  by (induction n) (simp_all add: grid_def)

lemma grid_Suc: "grid (Suc n) m f = grid n m f @ map (f n) [0..<m]"
  by (simp add: grid_def)

lemma nth_grid: "i < n \<Longrightarrow> j < m \<Longrightarrow> grid n m f ! (i * m + j) = f i j"
proof (induction n)
  case 0
  then show ?case by simp
next
  case (Suc n)
  show ?case
  proof (cases "i < n")
    case True
    then have "i * m + j < n * m"
    proof -
      from True have "Suc i * m \<le> n * m" by (intro mult_le_mono1) simp
      with Suc.prems(2) show ?thesis by simp
    qed
    with True Suc show ?thesis by (simp add: grid_Suc nth_append)
  next
    case False
    with Suc.prems have "i = n" by simp
    with Suc.prems show ?thesis by (simp add: grid_Suc nth_append)
  qed
qed

lemma sum_list_upt: "sum_list (map f [0..<n]) = (\<Sum>k<n. f k)"
  by (simp add: interv_sum_list_conv_sum_set_nat atLeast0LessThan)

lemma bshape_same: "bshape s s = Some s"
  by (induction s) simp_all

lemma broadcast_shape_same [simp]: "broadcast_shape s s = Some s"
  by (simp add: broadcast_shape_def bshape_same)

lemma chunks_Suc: "chunks (Suc k) n xs = take n xs # chunks k n (drop n xs)"
  unfolding chunks_def map_upt_Suc by (simp add: add.commute)

lemma chunks_0: "chunks 0 n xs = []"
  by (simp add: chunks_def)

lemma concat_chunks: "length xs = k * n \<Longrightarrow> concat (chunks k n xs) = xs"
  by (induction k arbitrary: xs) (simp_all add: chunks_Suc chunks_0)

lemma chunks_length: "length xs = k * n \<Longrightarrow> c \<in> set (chunks k n xs) \<Longrightarrow> length c = n"
proof (induction k arbitrary: xs)
  case 0
  then show ?case by (simp add: chunks_0)
next
  case (Suc k)
  from Suc.prems(2) consider "c = take n xs" | "c \<in> set (chunks k n (drop n xs))"
    by (auto simp add: chunks_Suc)
  then show ?case
  proof cases
    case 1
    with Suc.prems(1) show ?thesis by simp
  next
    case 2
    moreover have "length (drop n xs) = k * n" using Suc.prems(1) by simp
    ultimately show ?thesis using Suc.IH by blast
  qed
qed

lemma broadcast_to_same: "length xs = prod_list s \<Longrightarrow> broadcast_to s s xs = xs"
proof (induction s arbitrary: xs)
  case Nil
  then show ?case by simp
next
  case (Cons t ts)
  have len: "length xs = t * prod_list ts" using Cons.prems by simp
  have "map (broadcast_to ts ts) (chunks t (prod_list ts) xs) = chunks t (prod_list ts) xs"
  proof (rule map_idI)
    fix c assume "c \<in> set (chunks t (prod_list ts) xs)"
    then have "length c = prod_list ts" using len by (rule chunks_length[rotated])
    then show "broadcast_to ts ts c = c" by (rule Cons.IH)
  qed
  then have "broadcast_to (t # ts) (t # ts) xs = concat (chunks t (prod_list ts) xs)"
    by simp
  then show ?case using len by (simp only: concat_chunks)
qed

section \<open>HarmonicModel: energy, gradient and Hessian\<close>

lemma nd_binop_same:
  assumes "shape a = shape b" "wf_array a" "wf_array b"
  shows "nd_binop f a b = Inr \<lparr>shape = shape a, data = map2 f (data a) (data b)\<rparr>"
  using assms by (simp add: nd_binop_def wf_array_def broadcast_to_same)

lemma np_len_Cons: "shape a = n # s \<Longrightarrow> np_len a = Inr n"
  by (simp add: np_len_def)

lemma np_dot_vv_vec:
  "shape a = [n] \<Longrightarrow> shape b = [n] \<Longrightarrow> np_dot_vv a b = Inr (\<Sum>k<n. data a ! k * data b ! k)"
  by (simp add: np_dot_vv_def sum_list_upt)

lemma np_dot_mv_mat:
  "shape a = [n, k] \<Longrightarrow> shape b = [k] \<Longrightarrow>
   np_dot_mv a b = Inr \<lparr>shape = [n], data = map (\<lambda>i. \<Sum>j<k. data a ! (i * k + j) * data b ! j) [0..<n]\<rparr>"
  by (simp add: np_dot_mv_def sum_list_upt)

lemma harmonic_dx:
  assumes "shape (coords0 m) = [N, 3]" "wf_array (coords0 m)"
    and "shape x = [N, 3]" "wf_array x"
  shows "nd_sub x (coords0 m)
         = Inr \<lparr>shape = [N, 3], data = map (displacement m x) [0..<3 * N]\<rparr>"
proof -
  have len: "length (data x) = 3 * N" "length (data (coords0 m)) = 3 * N"
    using assms by (simp_all add: wf_array_def)
  have "map2 (-) (data x) (data (coords0 m)) = map (displacement m x) [0..<3 * N]"
    by (rule nth_equalityI) (simp_all add: len displacement_def)
  then show ?thesis
    using assms by (simp add: nd_sub_def nd_binop_same)
qed

lemma harmonic_get_energy:
  assumes "shape (coords0 m) = [N, 3]" "wf_array (coords0 m)"
    and "shape x = [N, 3]" "wf_array x"
    and "shape (gradient m) = [N, 3]"
    and "shape (hess m) = [N, 3, N, 3]"
  shows "HarmonicModel_get_energy m x = Inr (expansion_energy m N x)"
  unfolding HarmonicModel_get_energy_def
  using assms(5,6)
  by (simp add: np_len_Cons[OF assms(1)] harmonic_dx[OF assms(1-4)] reshape_def
      np_dot_vv_vec np_dot_mv_mat expansion_energy_def)

lemma harmonic_get_gradient:
  assumes "shape (coords0 m) = [N, 3]" "wf_array (coords0 m)"
    and "shape x = [N, 3]" "wf_array x"
    and "shape (gradient m) = [N, 3]" "wf_array (gradient m)"
    and "shape (hess m) = [N, 3, N, 3]"
  shows "HarmonicModel_get_gradient m x = Inr (expansion_gradient m N x)"
proof -
  let ?hdx = "\<lparr>shape = [N, 3], data = map (\<lambda>i. \<Sum>j<3 * N. data (hess m) ! (i * (3 * N) + j)
                  * displacement m x j) [0..<3 * N]\<rparr>"
  have len: "length (data (gradient m)) = 3 * N"
    using assms(5,6) by (simp add: wf_array_def)
  have "map2 (+) (data (gradient m)) (data ?hdx) = data (expansion_gradient m N x)"
    by (rule nth_equalityI) (simp_all add: len expansion_gradient_def)
  moreover have "wf_array ?hdx" by (simp add: wf_array_def)
  ultimately have "nd_add (gradient m) ?hdx = Inr (expansion_gradient m N x)"
    using assms(5,6) by (simp add: nd_add_def nd_binop_same expansion_gradient_def)
  then show ?thesis
    unfolding HarmonicModel_get_gradient_def
    using assms(7)
    by (simp add: np_len_Cons[OF assms(1)] harmonic_dx[OF assms(1-4)] reshape_def np_dot_mv_mat)
qed

lemma displacement_self [simp]: "displacement m (coords0 m) i = 0"
  by (simp add: displacement_def)

lemma expansion_energy_coords0: "expansion_energy m N (coords0 m) = reference m"
  by (simp add: expansion_energy_def)

lemma expansion_gradient_coords0:
  assumes "shape (gradient m) = [N, 3]" "wf_array (gradient m)"
  shows "expansion_gradient m N (coords0 m) = gradient m"
proof -
  have len: "length (data (gradient m)) = 3 * N"
    using assms by (simp add: wf_array_def)
  have "map (\<lambda>i. data (gradient m) ! i) [0..<3 * N] = data (gradient m)"
    using len by (metis map_nth)
  then show ?thesis using assms(1) by (simp add: expansion_gradient_def)
qed

lemma example_expansion_energy:
  "expansion_energy example_model 2 \<lparr>shape = [2, 3], data = [0,0,0, 3,0,0]\<rparr> = 20"
  by code_simp

lemma example_expansion_gradient:
  "expansion_gradient example_model 2 \<lparr>shape = [2, 3], data = [0,0,0, 3,0,0]\<rparr>
   = \<lparr>shape = [2, 3], data = [1,2,3, 6,5,6]\<rparr>"
  by code_simp

text \<open>
  C3: for a model whose reference coordinates and gradient have shape N x 3 and whose
  Hessian has shape N x 3 x N x 3, and for queried coordinates of shape N x 3,
  get_energy returns the quadratic expansion and get_gradient returns g + H dx
  reshaped to N x 3; at the reference coordinates they return the reference energy
  and the reference gradient.
\<close>

theorem harmonic_taylor_expansion:
  assumes "shape (coords0 m) = [N, 3]" "wf_array (coords0 m)"
    and "shape x = [N, 3]" "wf_array x"
    and "shape (gradient m) = [N, 3]" "wf_array (gradient m)"
    and "shape (hess m) = [N, 3, N, 3]"
  shows "HarmonicModel_get_energy m x = Inr (expansion_energy m N x)
       \<and> HarmonicModel_get_gradient m x = Inr (expansion_gradient m N x)
       \<and> HarmonicModel_get_energy m (coords0 m) = Inr (reference m)
       \<and> HarmonicModel_get_gradient m (coords0 m) = Inr (gradient m)"
  using harmonic_get_energy[OF assms(1-5) assms(7)]
    harmonic_get_energy[OF assms(1,2) assms(1,2) assms(5) assms(7)]
    harmonic_get_gradient[OF assms]
    harmonic_get_gradient[OF assms(1,2) assms(1,2) assms(5-7)]
    expansion_gradient_coords0[OF assms(5,6)]
  by (simp add: expansion_energy_coords0)

theorem harmonic_taylor_expansion_witness:
  "HarmonicModel_get_energy example_model \<lparr>shape = [2, 3], data = [0,0,0, 3,0,0]\<rparr> = Inr 20
   \<and> HarmonicModel_get_gradient example_model \<lparr>shape = [2, 3], data = [0,0,0, 3,0,0]\<rparr>
     = Inr \<lparr>shape = [2, 3], data = [1,2,3, 6,5,6]\<rparr>
   \<and> HarmonicModel_get_energy example_model (coords0 example_model) = Inr 10
   \<and> HarmonicModel_get_gradient example_model (coords0 example_model) = Inr example_gradient"
  using harmonic_taylor_expansion [of example_model 2 "\<lparr>shape = [2, 3], data = [0,0,0, 3,0,0]\<rparr>"]
  unfolding example_expansion_energy example_expansion_gradient
  by (simp add: example_model_def example_coords0_def example_gradient_def example_hess_def
      wf_array_def)

text \<open>
  A queried array with one atom never fails: numpy broadcasts it against the reference.
\<close>

lemma get_energy_one_atom_broadcast:
  assumes "shape (coords0 m) = [N, 3]" and "shape x = [1, 3]"
    and "shape (gradient m) = [N, 3]" and "shape (hess m) = [N, 3, N, 3]"
  shows "\<exists>e. HarmonicModel_get_energy m x = Inr e"
proof -
  have "broadcast_shape [1, 3] [N, 3] = Some [N, 3]"
    by (simp add: broadcast_shape_def)
  then show ?thesis
    using assms
    by (simp add: HarmonicModel_get_energy_def np_len_Cons[OF assms(1)] nd_sub_def
        nd_binop_def reshape_def np_dot_vv_vec np_dot_mv_mat)
qed

text \<open>
  C4, as stated, fails: a queried array with one atom is broadcast against a reference
  with two atoms, and get_energy returns a value.
\<close>

theorem get_energy_one_atom_counterexample:
  "np_len (coords0 example_model) = Inr 2
   \<and> np_len \<lparr>shape = [1, 3], data = [0,0,0]\<rparr> = Inr 1
   \<and> HarmonicModel_get_energy example_model \<lparr>shape = [1, 3], data = [0,0,0]\<rparr> = Inr (13 / 2)"
  by code_simp

text \<open>
  C4, amended: when queried and reference coordinates have shapes M x 3 and N x 3,
  get_energy fails with the ValueError of the shape mismatch whenever M differs from
  N and M is not 1.
\<close>

theorem get_energy_shape_mismatch:
  assumes "shape (coords0 m) = [N, 3]" and "shape x = [M, 3]"
    and "M \<noteq> N" and "M \<noteq> 1"
  shows "HarmonicModel_get_energy m x = Inl ValueError"
proof (cases "N = 1")
  case True
  with assms have "broadcast_shape [M, 3] [N, 3] = Some [M, 3]"
    by (simp add: broadcast_shape_def)
  with assms show ?thesis
    by (simp add: HarmonicModel_get_energy_def np_len_Cons[OF assms(1)] nd_sub_def
        nd_binop_def reshape_def True)
next
  case False
  with assms have "broadcast_shape [M, 3] [N, 3] = None"
    by (simp add: broadcast_shape_def)
  with assms show ?thesis
    by (simp add: HarmonicModel_get_energy_def np_len_Cons[OF assms(1)] nd_sub_def
        nd_binop_def)
qed

theorem get_energy_shape_mismatch_witness:
  "HarmonicModel_get_energy example_model \<lparr>shape = [3, 3], data = [0,0,0, 0,0,0, 0,0,0]\<rparr>
     = Inl ValueError"
  using get_energy_shape_mismatch [of example_model 2 "\<lparr>shape = [3, 3], data = [0,0,0, 0,0,0, 0,0,0]\<rparr>" 3]
  by (simp add: example_model_def example_coords0_def)

text \<open>
  C8: get_hessian returns the stored reference Hessian, whatever the queried
  coordinates are.
\<close>

theorem get_hessian_constant:
  "HarmonicModel_get_hessian m x = hess m
   \<and> HarmonicModel_get_hessian m x = HarmonicModel_get_hessian m x'"
  by (simp add: HarmonicModel_get_hessian_def)

section \<open>HarmonicModel: the cached pseudo-inverse\<close>

lemma grid_cong:
  assumes "\<And>i j. i < n \<Longrightarrow> j < m \<Longrightarrow> f i j = g i j"
  shows "grid n m f = grid n m g"
  unfolding grid_def using assms by (intro arg_cong[where f = concat] map_cong refl) simp

lemma ievals_loop_append:
  "ievals_loop r (ps @ qs) iev = ievals_loop r qs (ievals_loop r ps iev)"
  by (induction r ps iev rule: ievals_loop.induct) simp_all

lemma enumerate_list_snoc:
  "enumerate_list (xs @ [x]) = enumerate_list xs @ [(length xs, x)]"
  by (simp add: enumerate_list_def)

lemma ievals_loop_enumerate:
  "length xs \<le> length iev \<Longrightarrow>
   length (ievals_loop r (enumerate_list xs) iev) = length iev \<and>
   (\<forall>k<length iev. ievals_loop r (enumerate_list xs) iev ! k =
      (if k < length xs \<and> \<bar>xs ! k\<bar> > r then 1 / xs ! k else iev ! k))"
proof (induction xs rule: rev_induct)
  case Nil
  then show ?case by (simp add: enumerate_list_def)
next
  case (snoc x xs)
  then show ?case
    by (auto simp add: enumerate_list_snoc ievals_loop_append nth_append nth_list_update
        less_Suc_eq)
qed

lemma ievals_loop_zeros:
  "ievals_loop r (enumerate_list xs) (replicate (length xs) 0)
   = map (inverse_eigenvalue r) xs"
proof (rule nth_equalityI)
  show "length (ievals_loop r (enumerate_list xs) (replicate (length xs) 0))
        = length (map (inverse_eigenvalue r) xs)"
    using ievals_loop_enumerate[of xs "replicate (length xs) 0" r] by simp
next
  fix k assume "k < length (ievals_loop r (enumerate_list xs) (replicate (length xs) 0))"
  then have "k < length xs"
    using ievals_loop_enumerate[of xs "replicate (length xs) 0" r] by simp
  then show "ievals_loop r (enumerate_list xs) (replicate (length xs) 0) ! k
             = map (inverse_eigenvalue r) xs ! k"
    using ievals_loop_enumerate[of xs "replicate (length xs) 0" r]
    by (simp add: inverse_eigenvalue_def)
qed


lemma np_dot_mm_mat:
  "shape a = [n, k] \<Longrightarrow> shape b = [k, p] \<Longrightarrow>
   np_dot_mm a b = Inr \<lparr>shape = [n, p],
     data = grid n p (\<lambda>i j. \<Sum>l<k. data a ! (i * k + l) * data b ! (l * p + j))\<rparr>"
  by (simp add: np_dot_mm_def sum_list_upt)

lemma diag_times_transpose:
  assumes "shape V = [n, n]" "shape iev = [n]"
  shows "np_dot_mm (np_diag iev) (np_T V)
         = Inr \<lparr>shape = [n, n], data = grid n n (\<lambda>i j. data iev ! i * data V ! (j * n + i))\<rparr>"
proof -
  have "(\<Sum>l<n. grid n n (\<lambda>i j. if i = j then data iev ! i else 0) ! (i * n + l)
              * grid n n (\<lambda>j i. data V ! (i * n + j)) ! (l * n + j))
        = data iev ! i * data V ! (j * n + i)" if "i < n" "j < n" for i j
  proof -
    have "(\<Sum>l<n. grid n n (\<lambda>i j. if i = j then data iev ! i else 0) ! (i * n + l)
              * grid n n (\<lambda>j i. data V ! (i * n + j)) ! (l * n + j))
          = (\<Sum>l<n. (if i = l then data iev ! i else 0) * data V ! (j * n + l))"
      using that by (intro sum.cong refl) (simp add: nth_grid)
    also have "\<dots> = (\<Sum>l<n. if l = i then data iev ! i * data V ! (j * n + i) else 0)"
      by (intro sum.cong refl) simp
    also have "\<dots> = data iev ! i * data V ! (j * n + i)"
      using that by simp
    finally show ?thesis .
  qed
  then have "grid n n (\<lambda>i j. \<Sum>l<n. grid n n (\<lambda>i j. if i = j then data iev ! i else 0) ! (i * n + l)
              * grid n n (\<lambda>j i. data V ! (i * n + j)) ! (l * n + j))
        = grid n n (\<lambda>i j. data iev ! i * data V ! (j * n + i))"
    by (intro grid_cong)
  then show ?thesis
    using assms by (simp add: np_diag_def np_T_def np_dot_mm_mat)
qed

lemma pseudo_inverse_product:
  assumes "shape V = [n, n]" "shape iev = [n]"
  shows "bindE (np_dot_mm (np_diag iev) (np_T V)) (np_dot_mm V)
         = Inr \<lparr>shape = [n, n],
                data = grid n n (\<lambda>i j. \<Sum>k<n. data V ! (i * n + k) * data iev ! k
                                               * data V ! (j * n + k))\<rparr>"
proof -
  have "grid n n (\<lambda>i j. \<Sum>l<n. data V ! (i * n + l)
            * grid n n (\<lambda>i j. data iev ! i * data V ! (j * n + i)) ! (l * n + j))
        = grid n n (\<lambda>i j. \<Sum>k<n. data V ! (i * n + k) * data iev ! k * data V ! (j * n + k))"
    by (intro grid_cong sum.cong refl) (simp add: nth_grid mult.assoc)
  then show ?thesis
    using assms by (simp add: diag_times_transpose np_dot_mm_mat)
qed


lemma diagonalize_hess_result:
  assumes "shape c0 = [N, 3]" and "shape h = [N, 3, N, 3]"
    and "eigh (h\<lparr>shape := [3 * N, 3 * N]\<rparr>) = (lam, V)"
    and "shape lam = [3 * N]" "wf_array lam" and "shape V = [3 * N, 3 * N]"
  shows "diagonalize_hess eigh c0 h rdg
         = Inr (lam, V, \<lparr>shape = [3 * N], data = map (inverse_eigenvalue rdg) (data lam)\<rparr>,
                spectral_pseudo_inverse N rdg lam V)"
proof -
  let ?iev = "\<lparr>shape = [3 * N], data = map (inverse_eigenvalue rdg) (data lam)\<rparr>"
  have len: "length (data lam) = 3 * N"
    using assms(4,5) by (simp add: wf_array_def)
  have loop: "ievals_loop rdg (enumerate_list (data lam)) (replicate (3 * N) 0)
              = map (inverse_eigenvalue rdg) (data lam)"
    using ievals_loop_zeros[of rdg "data lam"] by (simp add: len)
  have prod: "bindE (np_dot_mm (np_diag ?iev) (np_T V)) (np_dot_mm V)
              = Inr (spectral_pseudo_inverse N rdg lam V\<lparr>shape := [3 * N, 3 * N]\<rparr>)"
  proof -
    have "grid (3 * N) (3 * N) (\<lambda>i j. \<Sum>k<3 * N. data V ! (i * (3 * N) + k) * data ?iev ! k
                                               * data V ! (j * (3 * N) + k))
          = data (spectral_pseudo_inverse N rdg lam V)"
      unfolding spectral_pseudo_inverse_def
      by (simp, intro grid_cong sum.cong refl) (simp add: len)
    then show ?thesis
      using pseudo_inverse_product[of V "3 * N" ?iev] assms(6)
      by (simp add: spectral_pseudo_inverse_def)
  qed
  obtain dv where dv: "np_dot_mm (np_diag ?iev) (np_T V) = Inr dv"
    using diag_times_transpose[of V "3 * N" ?iev] assms(6) by simp
  have prod': "np_dot_mm V dv = Inr (spectral_pseudo_inverse N rdg lam V\<lparr>shape := [3 * N, 3 * N]\<rparr>)"
    using prod by (simp add: dv)
  show ?thesis
    unfolding diagonalize_hess_def
    using assms(2)
    by (simp add: np_len_Cons[OF assms(1)] np_len_Cons[OF assms(4)] reshape_def assms(3)
        np_zeros_def loop dv prod' spectral_pseudo_inverse_def)
qed

text \<open>
  C1: when the eigen-decomposition of the flattened Hessian returns 3N eigenvalues
  \<open>lam\<close> and a 3N x 3N matrix \<open>V\<close>, and the ridge is not negative, construction
  succeeds, whatever the eigenvalues are, and caches \<open>V diag(w) V\<^sup>T\<close> with
  \<open>w = 1 / lam\<close> for eigenvalues above the ridge in absolute value and \<open>w = 0\<close>
  for the others.
\<close>

theorem pseudo_inverse_cached:
  assumes "shape c0 = [N, 3]" and "shape h = [N, 3, N, 3]"
    and "eigh (h\<lparr>shape := [3 * N, 3 * N]\<rparr>) = (lam, V)"
    and "shape lam = [3 * N]" "wf_array lam" and "shape V = [3 * N, 3 * N]"
    and "0 \<le> rdg"
  shows "HarmonicModel_init eigh c0 g h ref rdg
         = Inr \<lparr>coords0 = c0, gradient = g, hess = h, reference = ref, ridge = rdg,
                evals = lam, evecs = V,
                ievals = \<lparr>shape = [3 * N], data = map (inverse_eigenvalue rdg) (data lam)\<rparr>,
                ihess = spectral_pseudo_inverse N rdg lam V\<rparr>"
  using diagonalize_hess_result[of c0 N h eigh lam V rdg] assms(1-6)
  by (simp add: HarmonicModel_init_def)

lemma diagonal_eigh_example:
  "diagonal_eigh (example_hess\<lparr>shape := [3 * 2, 3 * 2]\<rparr>)
   = (\<lparr>shape = [3 * 2], data = [0, 0, 0, 1, 2, 4]\<rparr>, np_identity 6)"
  by code_simp

lemma example_model_constructed:
  "HarmonicModel_init diagonal_eigh example_coords0 example_gradient example_hess 10 (1 / 10)
   = Inr example_model"
  by code_simp

theorem pseudo_inverse_cached_witness:
  "HarmonicModel_init diagonal_eigh example_coords0 example_gradient example_hess 10 (1 / 10)
   = Inr \<lparr>coords0 = example_coords0, gradient = example_gradient, hess = example_hess,
          reference = 10, ridge = 1 / 10,
          evals = \<lparr>shape = [3 * 2], data = [0, 0, 0, 1, 2, 4]\<rparr>, evecs = np_identity 6,
          ievals = \<lparr>shape = [3 * 2], data = [0, 0, 0, 1, 1 / 2, 1 / 4]\<rparr>,
          ihess = spectral_pseudo_inverse 2 (1 / 10) \<lparr>shape = [3 * 2], data = [0, 0, 0, 1, 2, 4]\<rparr>
                    (np_identity 6)\<rparr>"
  using pseudo_inverse_cached [of example_coords0 2 example_hess diagonal_eigh
      "\<lparr>shape = [3 * 2], data = [0, 0, 0, 1, 2, 4]\<rparr>" "np_identity 6" "1 / 10" example_gradient 10]
    diagonal_eigh_example
  by (simp add: example_coords0_def example_hess_def wf_array_def np_identity_def
      inverse_eigenvalue_def)

section \<open>HarmonicModel: the constrained Hessian\<close>

lemma py_index_nonneg: "0 \<le> i \<Longrightarrow> i < int n \<Longrightarrow> py_index n i = Inr (nat i)"
  by (simp add: py_index_def)

lemma cell_index_eq:
  fixes a b c d n :: nat
  assumes "b < n" "d < n"
  shows "a * n + b = c * n + d \<longleftrightarrow> a = c \<and> b = d"
proof
  assume eq: "a * n + b = c * n + d"
  have "(a * n + b) div n = a" "(c * n + d) div n = c"
    using assms by simp_all
  moreover have "(a * n + b) mod n = b" "(c * n + d) mod n = d"
    using assms by simp_all
  ultimately show "a = c \<and> b = d" using eq by metis
qed simp

lemma cell_index_less: "a < n \<Longrightarrow> b < m \<Longrightarrow> a * m + b < n * m" for a b n m :: nat
proof -
  assume "a < n" "b < m"
  then have "Suc a * m \<le> n * m" by (intro mult_le_mono1) simp
  with \<open>b < m\<close> show ?thesis by simp
qed

lemma free_loop_result:
  assumes "shape D = [n, n]" "length (data D) = n * n"
    and "\<forall>i\<in>set frees. 0 \<le> i \<and> i < int n"
  shows "\<exists>D'. free_loop frees D = Inr D' \<and> shape D' = [n, n] \<and> length (data D') = n * n \<and>
           (\<forall>a<n. \<forall>b<n. data D' ! (a * n + b)
              = (if a = b \<and> int a \<in> set frees then 0 else data D ! (a * n + b)))"
  using assms
proof (induction frees arbitrary: D)
  case Nil
  then show ?case by simp
next
  case (Cons i rest)
  let ?D1 = "D\<lparr>data := (data D)[nat i * n + nat i := 0]\<rparr>"
  have i: "0 \<le> i" "i < int n" using Cons.prems(3) by simp_all
  then have ni: "nat i < n" by simp
  have step: "setitem2 D i i 0 = Inr ?D1"
    using Cons.prems(1) i by (simp add: setitem2_def py_index_nonneg)
  have "\<exists>D'. free_loop rest ?D1 = Inr D' \<and> shape D' = [n, n] \<and> length (data D') = n * n \<and>
           (\<forall>a<n. \<forall>b<n. data D' ! (a * n + b)
              = (if a = b \<and> int a \<in> set rest then 0 else data ?D1 ! (a * n + b)))"
    using Cons.prems by (intro Cons.IH) simp_all
  then obtain D' where D': "free_loop rest ?D1 = Inr D'" "shape D' = [n, n]"
    "length (data D') = n * n"
    "\<forall>a<n. \<forall>b<n. data D' ! (a * n + b)
              = (if a = b \<and> int a \<in> set rest then 0 else data ?D1 ! (a * n + b))"
    by blast
  have cell: "data ?D1 ! (a * n + b) = (if a = nat i \<and> b = nat i then 0 else data D ! (a * n + b))"
    if "a < n" "b < n" for a b
  proof -
    have "nat i * n + nat i < length (data D)"
      using Cons.prems(2) ni by (simp add: cell_index_less)
    then show ?thesis
      using cell_index_eq[of "nat i" n b "nat i" a] that ni
      by (auto simp add: nth_list_update)
  qed
  have "\<forall>a<n. \<forall>b<n. data D' ! (a * n + b)
              = (if a = b \<and> int a \<in> set (i # rest) then 0 else data D ! (a * n + b))"
  proof (intro allI impI)
    fix a b assume ab: "a < n" "b < n"
    have "int a = i \<longleftrightarrow> a = nat i" using i by auto
    then show "data D' ! (a * n + b)
              = (if a = b \<and> int a \<in> set (i # rest) then 0 else data D ! (a * n + b))"
      using D'(4) ab cell[OF ab] by auto
  qed
  with D' step show ?case by simp
qed


lemma list_eq_cells:
  assumes "length xs = n * m" "length ys = n * m"
    and "\<And>a b. a < n \<Longrightarrow> b < m \<Longrightarrow> xs ! (a * m + b) = ys ! (a * m + b)"
  shows "xs = ys"
proof (rule nth_equalityI)
  show "length xs = length ys" using assms by simp
next
  fix k assume "k < length xs"
  then have k: "k < n * m" using assms(1) by simp
  then have "0 < m" by (cases m) simp_all
  then have "k mod m < m" by simp
  moreover have "k div m < n" using k by (simp add: less_mult_imp_div_less)
  ultimately have "xs ! ((k div m) * m + k mod m) = ys ! ((k div m) * m + k mod m)"
    by (rule assms(3)[rotated])
  then show "xs ! k = ys ! k" by simp
qed

lemma free_loop_penalty:
  assumes "\<forall>i\<in>set frees. 0 \<le> i \<and> i < int n"
  shows "free_loop frees (nd_scale spring (np_identity n))
         = Inr \<lparr>shape = [n, n], data = penalty_matrix n frees spring\<rparr>"
proof -
  let ?D = "nd_scale spring (np_identity n)"
  have D: "shape ?D = [n, n]" "length (data ?D) = n * n"
    by (simp_all add: nd_scale_def np_identity_def)
  obtain D' where D': "free_loop frees ?D = Inr D'" "shape D' = [n, n]"
    "length (data D') = n * n"
    "\<forall>a<n. \<forall>b<n. data D' ! (a * n + b)
              = (if a = b \<and> int a \<in> set frees then 0 else data ?D ! (a * n + b))"
    using free_loop_result[OF D assms] by blast
  have "data D' = penalty_matrix n frees spring"
  proof (rule list_eq_cells[of _ n n])
    show "length (data D') = n * n" by (rule D'(3))
    show "length (penalty_matrix n frees spring) = n * n" by (simp add: penalty_matrix_def)
    fix a b assume ab: "a < n" "b < n"
    then have "data ?D ! (a * n + b) = (if a = b then spring else 0)"
      by (simp add: nd_scale_def np_identity_def nth_grid cell_index_less)
    moreover have "data D' ! (a * n + b)
              = (if a = b \<and> int a \<in> set frees then 0 else data ?D ! (a * n + b))"
      using D'(4) ab by blast
    ultimately show "data D' ! (a * n + b) = penalty_matrix n frees spring ! (a * n + b)"
      using ab by (auto simp add: penalty_matrix_def nth_grid)
  qed
  with D'(1,2) show ?thesis by simp
qed

lemma constrained_hess_result:
  assumes "shape (coords0 m) = [N, 3]" and "shape (hess m) = [N, 3, N, 3]"
    and "wf_array (hess m)" and "\<forall>i\<in>set frees. 0 \<le> i \<and> i < int (3 * N)"
  shows "get_constrained_hess m frees spring
         = Inr \<lparr>shape = [N, 3, N, 3],
                data = map2 (+) (data (hess m)) (penalty_matrix (3 * N) frees spring)\<rparr>"
proof -
  let ?D4 = "\<lparr>shape = [N, 3, N, 3], data = penalty_matrix (3 * N) frees spring\<rparr>"
  have "wf_array ?D4" by (simp add: wf_array_def penalty_matrix_def)
  then have "nd_add (hess m) ?D4 = Inr \<lparr>shape = [N, 3, N, 3],
                data = map2 (+) (data (hess m)) (penalty_matrix (3 * N) frees spring)\<rparr>"
    using assms(2,3) by (simp add: nd_add_def nd_binop_same)
  then show ?thesis
    unfolding get_constrained_hess_def
    by (simp add: np_len_Cons[OF assms(1)] free_loop_penalty[OF assms(4)] reshape_def)
qed

lemma constrained_ihess_as_diagonalize:
  assumes "get_constrained_hess m frees spring = Inr (hess m)"
  shows "get_constrained_ihess eigh m frees spring
         = map_sum id (\<lambda>(evs, vecs, iev, ih). ih)
             (diagonalize_hess eigh (coords0 m) (hess m) (ridge m))"
  unfolding get_constrained_ihess_def diagonalize_hess_def
  by (simp add: assms bindE_def Let_def split: sum.splits prod.splits)

lemma init_fields:
  assumes "HarmonicModel_init eigh c0 g h ref rdg = Inr m"
  shows "coords0 m = c0 \<and> hess m = h \<and> ridge m = rdg \<and>
         map_sum id (\<lambda>(evs, vecs, iev, ih). ih) (diagonalize_hess eigh c0 h rdg) = Inr (ihess m)"
  using assms unfolding HarmonicModel_init_def
  by (auto simp add: bindE_def split: sum.splits prod.splits)

lemma penalty_all_free:
  assumes "set frees = int ` {..<n}"
  shows "penalty_matrix n frees spring = replicate (n * n) 0"
proof (rule list_eq_cells[of _ n n])
  fix a b assume "a < n" "b < n"
  moreover from this have "int a \<in> set frees" using assms by simp
  ultimately show "penalty_matrix n frees spring ! (a * n + b) = replicate (n * n) 0 ! (a * n + b)"
    by (simp add: penalty_matrix_def nth_grid cell_index_less)
qed (simp_all add: penalty_matrix_def)

lemma add_zeros: "length xs = k \<Longrightarrow> map2 (+) xs (replicate k (0::real)) = xs"
  by (rule nth_equalityI) simp_all

text \<open>
  C5: for a Hessian of shape N x 3 x N x 3 and free indices among 0 .. 3N-1,
  get_constrained_hess returns an array that differs from the reference Hessian,
  viewed as a 3N x 3N matrix, by \<open>spring\<close> at the diagonal entries of the fixed
  indices and by 0 at every other entry.
\<close>

theorem constrained_hess_penalty:
  assumes "shape (coords0 m) = [N, 3]" and "shape (hess m) = [N, 3, N, 3]"
    and "wf_array (hess m)" and "\<forall>i\<in>set frees. 0 \<le> i \<and> i < int (3 * N)"
  shows "\<exists>C. get_constrained_hess m frees spring = Inr C \<and> shape C = [N, 3, N, 3]
           \<and> length (data C) = 3 * N * (3 * N)
           \<and> (\<forall>a<3 * N. \<forall>b<3 * N.
                data C ! (a * (3 * N) + b) - data (hess m) ! (a * (3 * N) + b)
                = (if a = b \<and> int a \<notin> set frees then spring else 0))"
proof -
  have len: "length (data (hess m)) = 3 * N * (3 * N)"
    using assms(2,3) by (simp add: wf_array_def)
  have "map2 (+) (data (hess m)) (penalty_matrix (3 * N) frees spring) ! (a * (3 * N) + b)
          - data (hess m) ! (a * (3 * N) + b)
        = (if a = b \<and> int a \<notin> set frees then spring else 0)"
    if "a < 3 * N" "b < 3 * N" for a b
  proof -
    have "a * (3 * N) + b < 3 * N * (3 * N)" using that by (rule cell_index_less)
    then show ?thesis
      using that len by (simp add: penalty_matrix_def nth_grid)
  qed
  then show ?thesis
    using constrained_hess_result[OF assms, of spring] len
    by (simp add: penalty_matrix_def)
qed

theorem constrained_hess_penalty_witness:
  "\<exists>C. get_constrained_hess example_model [0, 1, 2] 5 = Inr C \<and> shape C = [2, 3, 2, 3]
     \<and> data C ! (0 * 6 + 0) - data (hess example_model) ! (0 * 6 + 0) = 0
     \<and> data C ! (3 * 6 + 3) - data (hess example_model) ! (3 * 6 + 3) = 5
     \<and> data C ! (3 * 6 + 4) - data (hess example_model) ! (3 * 6 + 4) = 0"
proof -
  have "\<exists>C. get_constrained_hess example_model [0, 1, 2] 5 = Inr C \<and> shape C = [2, 3, 2, 3]
           \<and> length (data C) = 3 * 2 * (3 * 2)
           \<and> (\<forall>a<3 * 2. \<forall>b<3 * 2.
                data C ! (a * (3 * 2) + b) - data (hess example_model) ! (a * (3 * 2) + b)
                = (if a = b \<and> int a \<notin> set [0, 1, 2] then 5 else 0))"
    by (rule constrained_hess_penalty)
      (simp_all add: example_model_def example_coords0_def example_hess_def wf_array_def)
  then obtain C where C: "get_constrained_hess example_model [0, 1, 2] 5 = Inr C"
    "shape C = [2, 3, 2, 3]"
    "\<forall>a<3 * 2. \<forall>b<3 * 2.
        data C ! (a * (3 * 2) + b) - data (hess example_model) ! (a * (3 * 2) + b)
        = (if a = b \<and> int a \<notin> set [0, 1, 2] then 5 else 0)"
    by blast
  have "data C ! (0 * 6 + 0) - data (hess example_model) ! (0 * 6 + 0) = 0"
    using C(3)[rule_format, of 0 0] by simp
  moreover have "data C ! (3 * 6 + 3) - data (hess example_model) ! (3 * 6 + 3) = 5"
    using C(3)[rule_format, of 3 3] by simp
  moreover have "data C ! (3 * 6 + 4) - data (hess example_model) ! (3 * 6 + 4) = 0"
    using C(3)[rule_format, of 3 4] by simp
  ultimately show ?thesis using C(1,2) by blast
qed

text \<open>
  C10: for a constructed model, when the free indices are all of 0 .. 3N-1,
  get_constrained_hess returns the reference Hessian and get_constrained_ihess
  returns the pseudo-inverse that the constructor cached.
\<close>

theorem all_free_is_unconstrained:
  assumes "HarmonicModel_init eigh c0 g h ref rdg = Inr m"
    and "shape c0 = [N, 3]" and "shape h = [N, 3, N, 3]" and "wf_array h"
    and "set frees = int ` {..<3 * N}"
  shows "get_constrained_hess m frees spring = Inr (hess m)
       \<and> get_constrained_ihess eigh m frees spring = Inr (ihess m)"
proof -
  note f = init_fields[OF assms(1)]
  have range: "\<forall>i\<in>set frees. 0 \<le> i \<and> i < int (3 * N)"
    using assms(5) by auto
  have len: "length (data h) = 3 * N * (3 * N)"
    using assms(3,4) by (simp add: wf_array_def)
  have "get_constrained_hess m frees spring
        = Inr \<lparr>shape = [N, 3, N, 3],
               data = map2 (+) (data (hess m)) (penalty_matrix (3 * N) frees spring)\<rparr>"
    using assms(2-4) f by (intro constrained_hess_result range) simp_all
  also have "\<dots> = Inr (hess m)"
    using f assms(3) len by (simp add: penalty_all_free[OF assms(5)] add_zeros)
  finally have ch: "get_constrained_hess m frees spring = Inr (hess m)" .
  then show ?thesis
    using constrained_ihess_as_diagonalize[OF ch, of eigh] f by simp
qed

theorem all_free_is_unconstrained_witness:
  "get_constrained_hess example_model [0, 1, 2, 3, 4, 5] 7 = Inr (hess example_model)
   \<and> get_constrained_ihess diagonal_eigh example_model [0, 1, 2, 3, 4, 5] 7
     = Inr (ihess example_model)"
proof -
  have "set [0, 1, 2, 3, 4, 5] = int ` {..<3 * 2}"
    by (auto simp add: lessThan_def image_def)
  then show ?thesis
    using all_free_is_unconstrained [OF example_model_constructed, of 2 "[0, 1, 2, 3, 4, 5]" 7]
    by (simp add: example_coords0_def example_hess_def wf_array_def)
qed

section \<open>CoulombModel: the energy as a sum over pairs\<close>

lemma enumerate_list_map: "enumerate_list xs = map (\<lambda>j. (j, xs ! j)) [0..<length xs]"
  by (rule nth_equalityI) (simp_all add: enumerate_list_def)

lemma coulomb_inner_sum:
  assumes "\<forall>j\<in>set js. i < j \<and> \<not> excluded ep i j \<longrightarrow> ic_value ic i j crds \<noteq> 0"
  shows "coulomb_inner ic ep crds i qi (map (\<lambda>j. (j, q j)) js) e
         = Inr (e + sum_list (map (\<lambda>j. qi * q j / ic_value ic i j crds)
                       (filter (\<lambda>j. i < j \<and> \<not> excluded ep i j) js)))"
  using assms by (induction js arbitrary: e) (simp_all add: excluded_def not_le)

lemma coulomb_outer_sum:
  assumes "\<forall>(i, j)\<in>set (filter (\<lambda>(i, j). i < j \<and> \<not> excluded ep i j) (List.product is js)).
             ic_value ic i j crds \<noteq> 0"
  shows "coulomb_outer ic ep crds (map (\<lambda>j. (j, q j)) js) (map (\<lambda>i. (i, q i)) is) e
         = Inr (e + sum_list (map (\<lambda>(i, j). q i * q j / ic_value ic i j crds)
                       (filter (\<lambda>(i, j). i < j \<and> \<not> excluded ep i j) (List.product is js))))"
  using assms
proof (induction "is" arbitrary: e)
  case Nil
  then show ?case by simp
next
  case (Cons i "is")
  have row: "\<forall>j\<in>set js. i < j \<and> \<not> excluded ep i j \<longrightarrow> ic_value ic i j crds \<noteq> 0"
    using Cons.prems by auto
  have rest: "\<forall>(i, j)\<in>set (filter (\<lambda>(i, j). i < j \<and> \<not> excluded ep i j) (List.product is js)).
             ic_value ic i j crds \<noteq> 0"
    using Cons.prems by auto
  have "sum_list (map (\<lambda>(i, j). q i * q j / ic_value ic i j crds)
          (filter (\<lambda>(i, j). i < j \<and> \<not> excluded ep i j) (map (Pair i) js)))
        = sum_list (map (\<lambda>j. q i * q j / ic_value ic i j crds)
                       (filter (\<lambda>j. i < j \<and> \<not> excluded ep i j) js))"
    by (induction js) simp_all
  then show ?case
    by (simp add: Cons.IH[OF rest] coulomb_inner_sum[OF row])
qed

lemma coulomb_energy_sum:
  assumes "\<forall>(i, j)\<in>set (coulomb_pairs (length chg) ep). ic_value ic i j crds \<noteq> 0"
  shows "coulomb_outer ic ep crds (enumerate_list chg) (enumerate_list chg) e
         = Inr (e + raw_coulomb_energy ic chg ep crds)"
proof -
  have "sum_list (map (\<lambda>(i, j). chg ! i * chg ! j / ic_value ic i j crds)
                       (filter (\<lambda>(i, j). i < j \<and> \<not> excluded ep i j)
                          (List.product [0..<length chg] [0..<length chg])))
        = raw_coulomb_energy ic chg ep crds"
    by (simp add: raw_coulomb_energy_def coulomb_pairs_def)
  moreover have "\<forall>(i, j)\<in>set (filter (\<lambda>(i, j). i < j \<and> \<not> excluded ep i j)
                          (List.product [0..<length chg] [0..<length chg])).
                   ic_value ic i j crds \<noteq> 0"
    using assms by (simp add: coulomb_pairs_def)
  ultimately show ?thesis
    using coulomb_outer_sum[of ep "[0..<length chg]" "[0..<length chg]" ic crds "\<lambda>j. chg ! j" e]
    by (simp add: enumerate_list_map)
qed

lemma line_pairs: "coulomb_pairs (length [1, - 1, 1 :: real]) [] = [(0, 1), (0, 2), (1, 2)]"
  by code_simp

lemma line_energy: "raw_coulomb_energy bond_length [1, - 1, 1] [] line_coords = - 3 / 2"
  unfolding raw_coulomb_energy_def line_pairs
  by (simp add: bond_length_def bond_value_def xyz_def line_coords_def)

lemma line_pair_distances:
  "\<forall>(i, j)\<in>set (coulomb_pairs (length [1, - 1, 1 :: real]) []).
     ic_value bond_length i j line_coords \<noteq> 0"
  unfolding line_pairs
  by (simp add: bond_length_def bond_value_def xyz_def line_coords_def)

text \<open>
  C6: the constructor stores in \<open>shift\<close> the sum of \<open>q\<^sub>i q\<^sub>j / r\<^sub>i\<^sub>j\<close> over the pairs
  \<open>i < j\<close> that are not excluded, taken at the reference coordinates, and get_energy
  with shift, at those coordinates, returns 0. The distances of the summed pairs are
  taken to be non-zero.
\<close>

theorem coulomb_shift_zeroes_reference:
  assumes "\<forall>(i, j)\<in>set (coulomb_pairs (length chg) ep). ic_value ic i j crds \<noteq> 0"
  shows "CoulombModel_init ic crds chg nm ep
         = Inr \<lparr>coords = crds, charges = chg, name = nm, exclude_pairs = ep,
                shift = Some (raw_coulomb_energy ic chg ep crds)\<rparr>
       \<and> CoulombModel_get_energy ic
           \<lparr>coords = crds, charges = chg, name = nm, exclude_pairs = ep,
            shift = Some (raw_coulomb_energy ic chg ep crds)\<rparr> crds True = Inr 0"
  by (simp add: CoulombModel_init_def CoulombModel_get_energy_def coulomb_energy_sum[OF assms])

theorem coulomb_shift_zeroes_reference_witness:
  "CoulombModel_init bond_length line_coords [1, - 1, 1] ''line'' []
     = Inr \<lparr>coords = line_coords, charges = [1, - 1, 1], name = ''line'', exclude_pairs = [],
            shift = Some (- 3 / 2)\<rparr>
   \<and> CoulombModel_get_energy bond_length
       \<lparr>coords = line_coords, charges = [1, - 1, 1], name = ''line'', exclude_pairs = [],
        shift = Some (- 3 / 2)\<rparr> line_coords True = Inr 0"
  using coulomb_shift_zeroes_reference [of "[1, - 1, 1]" "[]" bond_length line_coords "''line''"]
    line_pair_distances
  by (simp only: line_energy)

section \<open>electrostatics: the loops as sums over pairs\<close>

lemma nd_iadd_same:
  assumes "shape a = shape b" "wf_array b"
  shows "nd_iadd a b = Inr \<lparr>shape = shape a, data = map2 (+) (data a) (data b)\<rparr>"
  using assms by (simp add: nd_iadd_def wf_array_def broadcast_to_same)

lemma add_forces_append:
  "add_forces ic smp (add_forces ic smp F ps) qs = add_forces ic smp F (ps @ qs)"
  by (simp add: add_forces_def)

lemma add_hess_append:
  "add_hess ic smp (add_hess ic smp H ps) qs = add_hess ic smp H (ps @ qs)"
  unfolding add_hess_def
  by (simp, intro grid_cong) (simp add: nth_grid)

lemma add_forces_Nil:
  assumes "shape F = [3 * length (ac smp)]" "wf_array F"
  shows "add_forces ic smp F [] = F"
proof -
  have len: "length (data F) = 3 * length (ac smp)"
    using assms by (simp add: wf_array_def)
  have "map (\<lambda>k. data F ! k) [0..<3 * length (ac smp)] = data F"
    using len by (metis map_nth)
  then show ?thesis using assms(1) by (simp add: add_forces_def)
qed


lemma add_hess_Nil:
  assumes "shape H = [3 * length (ac smp), 3 * length (ac smp)]" "wf_array H"
  shows "add_hess ic smp H [] = H"
proof -
  let ?n = "3 * length (ac smp)"
  have len: "length (data H) = ?n * ?n"
    using assms by (simp add: wf_array_def)
  have "grid ?n ?n (\<lambda>a b. data H ! (a * ?n + b)) = data H"
    by (rule list_eq_cells[of _ ?n ?n]) (simp_all add: len nth_grid)
  then show ?thesis using assms(1) by (simp add: add_hess_def)
qed

lemma forces_step:
  assumes "shape F = [3 * length (ac smp)]" "wf_array F"
    and "primitive_ok ic smp i j"
  shows "nd_iadd F (nd_scale (- (ac smp ! i) * ac smp ! j / (ic_value ic i j (coordinates smp))\<^sup>2)
                      (ic_grad ic i j (coordinates smp)))
         = Inr (add_forces ic smp F [(i, j)])"
proof -
  let ?n = "3 * length (ac smp)"
  let ?g = "ic_grad ic i j (coordinates smp)"
  let ?c = "- (ac smp ! i) * ac smp ! j / (ic_value ic i j (coordinates smp))\<^sup>2"
  have g: "shape ?g = [?n]" "length (data ?g) = ?n"
    using assms(3) by (simp_all add: primitive_ok_def wf_array_def)
  have F: "length (data F) = ?n"
    using assms(1,2) by (simp add: wf_array_def)
  have "map2 (+) (data F) (map ((*) ?c) (data ?g)) = data (add_forces ic smp F [(i, j)])"
    by (rule nth_equalityI) (simp_all add: add_forces_def F g pair_force_def)
  moreover have "wf_array (nd_scale ?c ?g)" "shape (nd_scale ?c ?g) = [?n]"
    using g by (simp_all add: wf_array_def nd_scale_def)
  ultimately show ?thesis
    using assms(1) by (simp add: nd_iadd_same nd_scale_def add_forces_def)
qed

lemma hess_step:
  assumes "shape H = [3 * length (ac smp), 3 * length (ac smp)]" "wf_array H"
    and "primitive_ok ic smp i j"
  shows "\<exists>m. nd_sub (nd_scale (2 / ic_value ic i j (coordinates smp))
                          (np_outer (ic_grad ic i j (coordinates smp))
                                    (ic_grad ic i j (coordinates smp))))
                       (ic_hess ic i j (coordinates smp)) = Inr m
           \<and> nd_iadd H (nd_scale (ac smp ! i * ac smp ! j
                                   / (ic_value ic i j (coordinates smp))\<^sup>2) m)
             = Inr (add_hess ic smp H [(i, j)])"
proof -
  let ?n = "3 * length (ac smp)"
  let ?g = "ic_grad ic i j (coordinates smp)"
  let ?h = "ic_hess ic i j (coordinates smp)"
  let ?r = "ic_value ic i j (coordinates smp)"
  let ?c = "ac smp ! i * ac smp ! j / ?r\<^sup>2"
  let ?o = "nd_scale (2 / ?r) (np_outer ?g ?g)"
  let ?m = "\<lparr>shape = [?n, ?n], data = map2 (-) (data ?o) (data ?h)\<rparr>"
  have g: "shape ?g = [?n]"
    using assms(3) by (simp add: primitive_ok_def)
  have h: "shape ?h = [?n, ?n]" "wf_array ?h" "length (data ?h) = ?n * ?n"
    using assms(3) by (simp_all add: primitive_ok_def wf_array_def)
  have H: "length (data H) = ?n * ?n"
    using assms(1,2) by (simp add: wf_array_def)
  have o: "shape ?o = [?n, ?n]" "wf_array ?o" "length (data ?o) = ?n * ?n"
    using g by (simp_all add: nd_scale_def np_outer_def Let_def wf_array_def)
  have sub: "nd_sub ?o ?h = Inr ?m"
    using o h by (simp add: nd_sub_def nd_binop_same)
  have m: "shape (nd_scale ?c ?m) = [?n, ?n]" "wf_array (nd_scale ?c ?m)"
    using o h by (simp_all add: nd_scale_def wf_array_def)
  have "map2 (+) (data H) (data (nd_scale ?c ?m)) = data (add_hess ic smp H [(i, j)])"
  proof (rule list_eq_cells[of _ ?n ?n])
    show "length (map2 (+) (data H) (data (nd_scale ?c ?m))) = ?n * ?n"
      using H o h by (simp add: nd_scale_def)
    show "length (data (add_hess ic smp H [(i, j)])) = ?n * ?n"
      by (simp add: add_hess_def)
    fix a b assume ab: "a < ?n" "b < ?n"
    then have idx: "a * ?n + b < ?n * ?n" by (rule cell_index_less)
    have od: "data ?o ! (a * ?n + b) = 2 / ?r * (data ?g ! a * data ?g ! b)"
      using ab idx g by (simp add: nd_scale_def np_outer_def Let_def nth_grid)
    have "map2 (+) (data H) (data (nd_scale ?c ?m)) ! (a * ?n + b)
          = data H ! (a * ?n + b) + ?c * (data ?o ! (a * ?n + b) - data ?h ! (a * ?n + b))"
      using idx H o(3) h(3) by (simp add: nd_scale_def)
    also have "\<dots> = data (add_hess ic smp H [(i, j)]) ! (a * ?n + b)"
      unfolding od using ab by (simp add: add_hess_def nth_grid pair_hess_def Let_def)
    finally show "map2 (+) (data H) (data (nd_scale ?c ?m)) ! (a * ?n + b)
               = data (add_hess ic smp H [(i, j)]) ! (a * ?n + b)" .
  qed
  then have "nd_iadd H (nd_scale ?c ?m) = Inr (add_hess ic smp H [(i, j)])"
    using assms(1) m by (simp add: nd_iadd_same add_hess_def)
  with sub show ?thesis by blast
qed


lemma add_forces_inv:
  "shape (add_forces ic smp F ps) = [3 * length (ac smp)] \<and> wf_array (add_forces ic smp F ps)"
  by (simp add: add_forces_def wf_array_def)

lemma add_hess_inv:
  "shape (add_hess ic smp H ps) = [3 * length (ac smp), 3 * length (ac smp)]
   \<and> wf_array (add_hess ic smp H ps)"
  by (simp add: add_hess_def wf_array_def)

lemma electrostatics_inner_result:
  assumes "shape F = [3 * length (ac smp)]" "wf_array F"
    and "shape H = [3 * length (ac smp), 3 * length (ac smp)]" "wf_array H"
    and "\<forall>j\<in>set js. j < length (ffatypes smp) \<and> primitive_ok ic smp i j"
    and "\<forall>j\<in>set js. ffatypes smp ! j \<notin> set et \<and> \<not> excluded ep i j
           \<longrightarrow> ic_value ic i j (coordinates smp) \<noteq> 0"
  shows "electrostatics_inner ic smp ep et i js (F, H)
         = Inr (add_forces ic smp F
                  (map (Pair i) (filter (\<lambda>j. ffatypes smp ! j \<notin> set et \<and> \<not> excluded ep i j) js)),
                add_hess ic smp H
                  (map (Pair i) (filter (\<lambda>j. ffatypes smp ! j \<notin> set et \<and> \<not> excluded ep i j) js)))"
  using assms
proof (induction js arbitrary: F H)
  case Nil
  then show ?case by (simp add: add_forces_Nil add_hess_Nil)
next
  case (Cons j js)
  have tj: "py_getitem (ffatypes smp) j = Inr (ffatypes smp ! j)"
    using Cons.prems(5) by (simp add: py_getitem_def)
  have ok: "primitive_ok ic smp i j" using Cons.prems(5) by simp
  have rest: "\<forall>j\<in>set js. j < length (ffatypes smp) \<and> primitive_ok ic smp i j"
    using Cons.prems(5) by simp
  have rest0: "\<forall>j\<in>set js. ffatypes smp ! j \<notin> set et \<and> \<not> excluded ep i j
           \<longrightarrow> ic_value ic i j (coordinates smp) \<noteq> 0"
    using Cons.prems(6) by simp
  show ?case
  proof (cases "ffatypes smp ! j \<in> set et \<or> excluded ep i j")
    case True
    then show ?thesis
      using Cons.IH[OF Cons.prems(1-4) rest rest0]
      by (auto simp add: tj excluded_def)
  next
    case False
    have r: "ic_value ic i j (coordinates smp) \<noteq> 0"
      using Cons.prems(6) False by simp
    obtain m where m: "nd_sub (nd_scale (2 / ic_value ic i j (coordinates smp))
                          (np_outer (ic_grad ic i j (coordinates smp))
                                    (ic_grad ic i j (coordinates smp))))
                       (ic_hess ic i j (coordinates smp)) = Inr m"
      "nd_iadd H (nd_scale (ac smp ! i * ac smp ! j
                                   / (ic_value ic i j (coordinates smp))\<^sup>2) m)
             = Inr (add_hess ic smp H [(i, j)])"
      using hess_step[OF Cons.prems(3,4) ok] by blast
    note f = forces_step[OF Cons.prems(1,2) ok]
    have ih: "electrostatics_inner ic smp ep et i js
                (add_forces ic smp F [(i, j)], add_hess ic smp H [(i, j)])
         = Inr (add_forces ic smp (add_forces ic smp F [(i, j)])
                  (map (Pair i) (filter (\<lambda>j. ffatypes smp ! j \<notin> set et \<and> \<not> excluded ep i j) js)),
                add_hess ic smp (add_hess ic smp H [(i, j)])
                  (map (Pair i) (filter (\<lambda>j. ffatypes smp ! j \<notin> set et \<and> \<not> excluded ep i j) js)))"
      using add_forces_inv add_hess_inv rest rest0 by (intro Cons.IH) blast+
    from False have "electrostatics_inner ic smp ep et i (j # js) (F, H)
        = electrostatics_inner ic smp ep et i js
                (add_forces ic smp F [(i, j)], add_hess ic smp H [(i, j)])"
      using f r by (simp add: tj excluded_def Let_def m)
    then show ?thesis
      using False by (simp add: ih add_forces_append add_hess_append)
  qed
qed

lemma electrostatics_outer_result:
  assumes "shape F = [3 * length (ac smp)]" "wf_array F"
    and "shape H = [3 * length (ac smp), 3 * length (ac smp)]" "wf_array H"
    and "\<forall>i\<in>set is. i < length (ffatypes smp) \<and> (\<forall>j<i. primitive_ok ic smp i j)"
    and "\<forall>(i, j)\<in>set (concat (map (pair_row smp ep et) is)).
           ic_value ic i j (coordinates smp) \<noteq> 0"
  shows "electrostatics_outer ic smp ep et is (F, H)
         = Inr (add_forces ic smp F (concat (map (pair_row smp ep et) is)),
                add_hess ic smp H (concat (map (pair_row smp ep et) is)))"
  using assms
proof (induction "is" arbitrary: F H)
  case Nil
  then show ?case by (simp add: add_forces_Nil add_hess_Nil)
next
  case (Cons i "is")
  have ti: "py_getitem (ffatypes smp) i = Inr (ffatypes smp ! i)"
    using Cons.prems(5) by (simp add: py_getitem_def)
  have rest: "\<forall>i\<in>set is. i < length (ffatypes smp) \<and> (\<forall>j<i. primitive_ok ic smp i j)"
    using Cons.prems(5) by simp
  have rest0: "\<forall>(i, j)\<in>set (concat (map (pair_row smp ep et) is)).
           ic_value ic i j (coordinates smp) \<noteq> 0"
    using Cons.prems(6) by simp
  show ?case
  proof (cases "ffatypes smp ! i \<in> set et")
    case True
    then show ?thesis
      using Cons.IH[OF Cons.prems(1-4) rest rest0] by (simp add: ti pair_row_def)
  next
    case False
    have ok: "\<forall>j\<in>set [0..<i]. j < length (ffatypes smp) \<and> primitive_ok ic smp i j"
      using Cons.prems(5) by auto
    have "\<forall>(a, b)\<in>set (pair_row smp ep et i). ic_value ic a b (coordinates smp) \<noteq> 0"
      using Cons.prems(6) by simp
    then have nz: "\<forall>j\<in>set [0..<i]. ffatypes smp ! j \<notin> set et \<and> \<not> excluded ep i j
           \<longrightarrow> ic_value ic i j (coordinates smp) \<noteq> 0"
      using False by (auto simp add: pair_row_def)
    have inner: "electrostatics_inner ic smp ep et i [0..<i] (F, H)
        = Inr (add_forces ic smp F (pair_row smp ep et i),
               add_hess ic smp H (pair_row smp ep et i))"
      using electrostatics_inner_result[OF Cons.prems(1-4) ok nz] False
      by (simp add: pair_row_def)
    have ih: "electrostatics_outer ic smp ep et is
                (add_forces ic smp F (pair_row smp ep et i),
                 add_hess ic smp H (pair_row smp ep et i))
        = Inr (add_forces ic smp (add_forces ic smp F (pair_row smp ep et i))
                 (concat (map (pair_row smp ep et) is)),
               add_hess ic smp (add_hess ic smp H (pair_row smp ep et i))
                 (concat (map (pair_row smp ep et) is)))"
      using add_forces_inv add_hess_inv rest rest0 by (intro Cons.IH) blast+
    show ?thesis
      using False by (simp add: ti inner ih add_forces_append add_hess_append)
  qed
qed

lemma filter_product:
  "filter P (List.product xs ys)
   = concat (map (\<lambda>x. map (Pair x) (filter (\<lambda>y. P (x, y)) ys)) xs)"
  by (induction xs) (simp_all add: filter_map comp_def)

lemma filter_less_upt: "i \<le> n \<Longrightarrow> filter (\<lambda>j. j < i) [0..<n] = [0..<i]"
proof (induction n)
  case 0
  then show ?case by simp
next
  case (Suc n)
  show ?case
  proof (cases "i = Suc n")
    case True
    then show ?thesis by (simp add: filter_id_conv)
  next
    case False
    with Suc show ?thesis by simp
  qed
qed

lemma active_pairs_rows:
  "active_pairs smp ep et = concat (map (pair_row smp ep et) [0..<length (ac smp)])"
proof -
  let ?N = "length (ac smp)"
  have "filter (\<lambda>j. j < i \<and> ffatypes smp ! i \<notin> set et \<and> ffatypes smp ! j \<notin> set et
                        \<and> \<not> excluded ep i j) [0..<?N]
        = (if ffatypes smp ! i \<in> set et then []
           else filter (\<lambda>j. ffatypes smp ! j \<notin> set et \<and> \<not> excluded ep i j) [0..<i])"
    if "i < ?N" for i
  proof -
    have "filter (\<lambda>j. j < i \<and> ffatypes smp ! i \<notin> set et \<and> ffatypes smp ! j \<notin> set et
                        \<and> \<not> excluded ep i j) [0..<?N]
          = filter (\<lambda>j. ffatypes smp ! i \<notin> set et \<and> ffatypes smp ! j \<notin> set et
                        \<and> \<not> excluded ep i j) (filter (\<lambda>j. j < i) [0..<?N])"
      by (simp add: conj_commute)
    also have "\<dots> = filter (\<lambda>j. ffatypes smp ! i \<notin> set et \<and> ffatypes smp ! j \<notin> set et
                        \<and> \<not> excluded ep i j) [0..<i]"
      using that by (simp only: filter_less_upt[of i ?N, OF less_imp_le])
    finally show ?thesis by simp
  qed
  then have rows: "map (\<lambda>i. map (Pair i) (filter (\<lambda>j. j < i \<and> ffatypes smp ! i \<notin> set et
                 \<and> ffatypes smp ! j \<notin> set et \<and> \<not> excluded ep i j) [0..<?N])) [0..<?N]
             = map (pair_row smp ep et) [0..<?N]"
    by (intro map_cong refl) (simp add: pair_row_def)
  show ?thesis
    by (simp only: active_pairs_def filter_product prod.case rows)
qed

lemma electrostatics_result:
  assumes "length (ac smp) \<le> length (ffatypes smp)"
    and "\<forall>i<length (ac smp). \<forall>j<i. primitive_ok ic smp i j"
    and "\<forall>(i, j)\<in>set (active_pairs smp ep et). ic_value ic i j (coordinates smp) \<noteq> 0"
  shows "electrostatics ic smp ep et = Inr (total_forces ic smp ep et, total_hess ic smp ep et)
       \<and> length (data (total_forces ic smp ep et)) = 3 * length (ac smp)
       \<and> length (data (total_hess ic smp ep et)) = 3 * length (ac smp) * (3 * length (ac smp))"
proof -
  let ?n = "3 * length (ac smp)"
  have z: "shape (np_zeros [?n]) = [?n]" "wf_array (np_zeros [?n])"
    "shape (np_zeros [?n, ?n]) = [?n, ?n]" "wf_array (np_zeros [?n, ?n])"
    by (simp_all add: np_zeros_def wf_array_def)
  have range: "\<forall>i\<in>set [0..<length (ac smp)].
                 i < length (ffatypes smp) \<and> (\<forall>j<i. primitive_ok ic smp i j)"
    using assms(1,2) by auto
  have nz: "\<forall>(i, j)\<in>set (concat (map (pair_row smp ep et) [0..<length (ac smp)])).
              ic_value ic i j (coordinates smp) \<noteq> 0"
    using assms(3) by (simp only: active_pairs_rows)
  have f: "add_forces ic smp (np_zeros [?n]) (active_pairs smp ep et) = total_forces ic smp ep et"
    by (simp add: add_forces_def total_forces_def np_zeros_def)
  have "grid ?n ?n (\<lambda>a b. data (np_zeros [?n, ?n]) ! (a * ?n + b)
                        + sum_list (map (pair_hess ic smp a b) (active_pairs smp ep et)))
        = grid ?n ?n (\<lambda>a b. sum_list (map (pair_hess ic smp a b) (active_pairs smp ep et)))"
  proof (rule grid_cong)
    fix a b assume "a < ?n" "b < ?n"
    then have "a * ?n + b < ?n * ?n" by (rule cell_index_less)
    then have "data (np_zeros [?n, ?n]) ! (a * ?n + b) = 0"
      by (simp add: np_zeros_def)
    then show "data (np_zeros [?n, ?n]) ! (a * ?n + b)
                 + sum_list (map (pair_hess ic smp a b) (active_pairs smp ep et))
               = sum_list (map (pair_hess ic smp a b) (active_pairs smp ep et))"
      by simp
  qed
  then have h: "add_hess ic smp (np_zeros [?n, ?n]) (active_pairs smp ep et)
                = total_hess ic smp ep et"
    by (simp add: add_hess_def total_hess_def)
  have "electrostatics ic smp ep et = Inr (total_forces ic smp ep et, total_hess ic smp ep et)"
    using electrostatics_outer_result[OF z range nz]
    by (simp add: electrostatics_def Let_def active_pairs_rows[symmetric] f h)
  then show ?thesis
    by (simp add: total_forces_def total_hess_def)
qed

lemma bond_length_ok: "primitive_ok bond_length line_sample i j"
  by (simp add: primitive_ok_def bond_length_def bond_grad_def bond_hess_def wf_array_def
      line_sample_def line_coords_def natoms_def)

lemma line_active_pairs: "active_pairs line_sample [] [] = [(1, 0), (2, 0), (2, 1)]"
  by code_simp

lemma line_distances:
  "\<forall>(i, j)\<in>set (active_pairs line_sample [] []).
     ic_value bond_length i j (coordinates line_sample) \<noteq> 0"
  unfolding line_active_pairs
  by (simp add: bond_length_def bond_value_def xyz_def line_sample_def line_coords_def)

lemma coincident_atoms_raise:
  "electrostatics bond_length coincident_sample [] [] = Inl ZeroDivisionError"
proof -
  have u: "[0..<length (ac coincident_sample)] = [0, 1]"
    by code_simp
  have r: "ic_value bond_length (Suc 0) 0 (coordinates coincident_sample) = 0"
    by (simp add: bond_length_def bond_value_def xyz_def coincident_sample_def)
  have t: "ffatypes coincident_sample = [''H'', ''H'']"
    by (simp add: coincident_sample_def)
  show ?thesis
    by (simp add: electrostatics_def Let_def u r t py_getitem_def)
qed

lemma line_forces:
  "data (total_forces bond_length line_sample [] []) = [- 3 / 4, 0, 0, 0, 0, 0, 3 / 4, 0, 0]"
proof -
  note p = line_active_pairs
  have u: "[0..<3 * length (ac line_sample)] = [0, 1, 2, 3, 4, 5, 6, 7, 8]"
    by code_simp
  show ?thesis
    unfolding total_forces_def p u
    by (simp add: pair_force_def line_sample_def bond_length_def bond_grad_def bond_value_def
        bond_unit_def xyz_def line_coords_def natoms_def real_sqrt_four Let_def)
qed

text \<open>
  C2: for a sample with N charges, at least N type labels and a primitive that returns
  gradients of length 3N, Hessians of shape 3N x 3N and a non-zero distance for every
  pair that is not skipped, electrostatics returns the
  forces and the Hessian, of sizes 3N and 3N x 3N, whose components are the sums of
  \<open>-(q\<^sub>i q\<^sub>j / r\<^sup>2) g\<close> and of \<open>(q\<^sub>i q\<^sub>j / r\<^sup>2) ((2 / r) g g\<^sup>T - H\<^sub>r)\<close> over the pairs
  \<open>(i, j)\<close> with \<open>j < i\<close> in which neither type is excluded and whose index pair is
  not excluded in either order.
\<close>

theorem electrostatics_pair_sums:
  assumes "length (ac smp) \<le> length (ffatypes smp)"
    and "\<forall>i<length (ac smp). \<forall>j<i. primitive_ok ic smp i j"
    and "\<forall>(i, j)\<in>set (active_pairs smp ep et). ic_value ic i j (coordinates smp) \<noteq> 0"
  shows "electrostatics ic smp ep et = Inr (total_forces ic smp ep et, total_hess ic smp ep et)
       \<and> length (data (total_forces ic smp ep et)) = 3 * length (ac smp)
       \<and> length (data (total_hess ic smp ep et)) = 3 * length (ac smp) * (3 * length (ac smp))"
  using assms by (rule electrostatics_result)

theorem electrostatics_pair_sums_witness:
  "electrostatics bond_length line_sample [] []
     = Inr (total_forces bond_length line_sample [] [], total_hess bond_length line_sample [] [])
   \<and> data (total_forces bond_length line_sample [] []) = [- 3 / 4, 0, 0, 0, 0, 0, 3 / 4, 0, 0]
   \<and> length (data (total_hess bond_length line_sample [] [])) = 81"
  using electrostatics_pair_sums [of line_sample bond_length "[]" "[]"] line_distances
  by (simp add: bond_length_ok line_forces) (simp add: line_sample_def)

section \<open>Exclusion lists\<close>

lemma coulomb_inner_cong:
  assumes "\<forall>(j, q)\<in>set ps. excluded ep i j = excluded ep' i j"
  shows "coulomb_inner ic ep crds i qi ps e = coulomb_inner ic ep' crds i qi ps e"
  using assms
proof (induction ps arbitrary: e)
  case Nil
  then show ?case by simp
next
  case (Cons p ps)
  obtain j qj where p: "p = (j, qj)" by (cases p)
  have test: "([int i, int j] \<in> set ep \<or> [int j, int i] \<in> set ep)
              = ([int i, int j] \<in> set ep' \<or> [int j, int i] \<in> set ep')"
    using Cons.prems by (simp add: excluded_def p)
  have ih: "coulomb_inner ic ep crds i qi ps e' = coulomb_inner ic ep' crds i qi ps e'" for e'
    using Cons.prems by (intro Cons.IH) simp
  show ?case
    unfolding p coulomb_inner.simps test ih ..
qed

lemma coulomb_outer_cong:
  assumes "\<forall>(i, q)\<in>set is. \<forall>(j, q')\<in>set qs. excluded ep i j = excluded ep' i j"
  shows "coulomb_outer ic ep crds qs is e = coulomb_outer ic ep' crds qs is e"
  using assms
proof (induction "is" arbitrary: e)
  case Nil
  then show ?case by simp
next
  case (Cons p "is")
  obtain i qi where p: "p = (i, qi)" by (cases p)
  have inner: "coulomb_inner ic ep crds i qi qs e = coulomb_inner ic ep' crds i qi qs e"
    using Cons.prems by (intro coulomb_inner_cong) (simp add: p)
  have ih: "coulomb_outer ic ep crds qs is e' = coulomb_outer ic ep' crds qs is e'" for e'
    using Cons.prems by (intro Cons.IH) simp
  show ?case
    unfolding p coulomb_outer.simps inner ih ..
qed

lemma coulomb_loops_cong:
  assumes "\<And>i j. i < length chg \<Longrightarrow> j < length chg \<Longrightarrow> excluded ep i j = excluded ep' i j"
  shows "coulomb_outer ic ep crds (enumerate_list chg) (enumerate_list chg) e
         = coulomb_outer ic ep' crds (enumerate_list chg) (enumerate_list chg) e"
  by (rule coulomb_outer_cong) (auto simp add: enumerate_list_map assms)

lemma coulomb_get_energy_cong:
  assumes "\<And>i j. i < length (charges self) \<Longrightarrow> j < length (charges self)
             \<Longrightarrow> excluded ep i j = excluded ep' i j"
  shows "CoulombModel_get_energy ic (self\<lparr>exclude_pairs := ep\<rparr>) crds s
         = CoulombModel_get_energy ic (self\<lparr>exclude_pairs := ep'\<rparr>) crds s"
  using coulomb_loops_cong[of "charges self" ep ep' ic crds, OF assms]
  by (simp add: CoulombModel_get_energy_def)

lemma coulomb_init_cong:
  assumes "\<And>i j. i < length chg \<Longrightarrow> j < length chg \<Longrightarrow> excluded ep i j = excluded ep' i j"
  shows "map_sum id shift (CoulombModel_init ic crds chg nm ep)
         = map_sum id shift (CoulombModel_init ic crds chg nm ep')"
proof -
  have "coulomb_outer ic ep crds (enumerate_list chg) (enumerate_list chg) 0
        = coulomb_outer ic ep' crds (enumerate_list chg) (enumerate_list chg) 0"
    using assms by (rule coulomb_loops_cong)
  then show ?thesis
    by (cases "coulomb_outer ic ep' crds (enumerate_list chg) (enumerate_list chg) 0")
       (simp_all add: CoulombModel_init_def CoulombModel_get_energy_def)
qed

lemma electrostatics_inner_cong:
  assumes "\<forall>j\<in>set js. excluded ep i j = excluded ep' i j"
  shows "electrostatics_inner ic smp ep et i js st = electrostatics_inner ic smp ep' et i js st"
  using assms
proof (induction js arbitrary: st)
  case Nil
  then show ?case by simp
next
  case (Cons j js)
  obtain F H where st: "st = (F, H)" by (cases st)
  have test: "([int i, int j] \<in> set ep \<or> [int j, int i] \<in> set ep)
              = ([int i, int j] \<in> set ep' \<or> [int j, int i] \<in> set ep')"
    using Cons.prems by (simp add: excluded_def)
  have ih: "electrostatics_inner ic smp ep et i js st'
            = electrostatics_inner ic smp ep' et i js st'" for st'
    using Cons.prems by (intro Cons.IH) simp
  show ?case
    unfolding st electrostatics_inner.simps test ih ..
qed

lemma electrostatics_outer_cong:
  assumes "\<forall>i\<in>set is. \<forall>j<i. excluded ep i j = excluded ep' i j"
  shows "electrostatics_outer ic smp ep et is st = electrostatics_outer ic smp ep' et is st"
  using assms
proof (induction "is" arbitrary: st)
  case Nil
  then show ?case by simp
next
  case (Cons i "is")
  have inner: "electrostatics_inner ic smp ep et i [0..<i] st
               = electrostatics_inner ic smp ep' et i [0..<i] st"
    using Cons.prems by (intro electrostatics_inner_cong) simp
  have ih: "electrostatics_outer ic smp ep et is st'
            = electrostatics_outer ic smp ep' et is st'" for st'
    using Cons.prems by (intro Cons.IH) simp
  show ?case
    unfolding electrostatics_outer.simps inner ih ..
qed

lemma electrostatics_cong:
  assumes "\<And>i j. i < length (ac smp) \<Longrightarrow> j < length (ac smp)
             \<Longrightarrow> excluded ep i j = excluded ep' i j"
  shows "electrostatics ic smp ep et = electrostatics ic smp ep' et"
  unfolding electrostatics_def Let_def
  by (rule electrostatics_outer_cong) (simp add: assms)

lemma excluded_swap:
  "excluded (ep1 @ [i, j] # ep2) a b = excluded (ep1 @ [j, i] # ep2) a b"
  by (auto simp add: excluded_def)

lemma excluded_out_of_range:
  assumes "a < 0 \<or> int n \<le> a \<or> b < 0 \<or> int n \<le> b" and "i < n" "j < n"
  shows "excluded (ep1 @ [a, b] # ep2) i j = excluded (ep1 @ ep2) i j"
  using assms by (auto simp add: excluded_def)

lemma line_pairs_invalid:
  "coulomb_pairs (length [1, - 1, 1 :: real]) [ [0, 5] ] = [(0, 1), (0, 2), (1, 2)]"
  by code_simp

lemma line_energy_invalid:
  "raw_coulomb_energy bond_length [1, - 1, 1] [ [0, 5] ] line_coords = - 3 / 2"
  unfolding raw_coulomb_energy_def line_pairs_invalid
  by (simp add: bond_length_def bond_value_def xyz_def line_coords_def)

lemma line_pair_distances_invalid:
  "\<forall>(i, j)\<in>set (coulomb_pairs (length [1, - 1, 1 :: real]) [ [0, 5] ]).
     ic_value bond_length i j line_coords \<noteq> 0"
  unfolding line_pairs_invalid
  by (simp add: bond_length_def bond_value_def xyz_def line_coords_def)

text \<open>
  C7: an exclusion entry \<open>[i, j]\<close> and the entry \<open>[j, i]\<close> at the same place give the
  same shift at construction, the same energy of a CoulombModel and the same result
  of electrostatics.
\<close>

theorem exclusion_order_irrelevant:
  "map_sum id shift (CoulombModel_init ic crds chg nm (ep1 @ [i, j] # ep2))
     = map_sum id shift (CoulombModel_init ic crds chg nm (ep1 @ [j, i] # ep2))
   \<and> CoulombModel_get_energy ic (self\<lparr>exclude_pairs := ep1 @ [i, j] # ep2\<rparr>) x s
     = CoulombModel_get_energy ic (self\<lparr>exclude_pairs := ep1 @ [j, i] # ep2\<rparr>) x s
   \<and> electrostatics ic smp (ep1 @ [i, j] # ep2) et
     = electrostatics ic smp (ep1 @ [j, i] # ep2) et"
  using coulomb_init_cong[of chg "ep1 @ [i, j] # ep2" "ep1 @ [j, i] # ep2" ic crds nm]
    coulomb_get_energy_cong[of self "ep1 @ [i, j] # ep2" "ep1 @ [j, i] # ep2" ic x s]
    electrostatics_cong[of smp "ep1 @ [i, j] # ep2" "ep1 @ [j, i] # ep2" ic et]
  by (simp only: excluded_swap simp_thms)

theorem exclusion_order_irrelevant_witness:
  "map_sum id shift (CoulombModel_init bond_length line_coords [1, - 1, 1] ''line'' [ [0, 1] ])
     = map_sum id shift (CoulombModel_init bond_length line_coords [1, - 1, 1] ''line'' [ [1, 0] ])
   \<and> CoulombModel_get_energy bond_length
       \<lparr>coords = line_coords, charges = [1, - 1, 1], name = ''line'',
        exclude_pairs = [ [0, 1] ], shift = Some 1\<rparr> line_coords True
     = CoulombModel_get_energy bond_length
       \<lparr>coords = line_coords, charges = [1, - 1, 1], name = ''line'',
        exclude_pairs = [ [1, 0] ], shift = Some 1\<rparr> line_coords True
   \<and> electrostatics bond_length line_sample [ [0, 1] ] []
     = electrostatics bond_length line_sample [ [1, 0] ] []"
  using exclusion_order_irrelevant [of bond_length line_coords "[1, - 1, 1]" "''line''" "[]" 0 1 "[]"
      "\<lparr>coords = line_coords, charges = [1, - 1, 1], name = ''line'',
        exclude_pairs = [], shift = Some 1\<rparr>" line_coords True line_sample "[]"]
  by simp

text \<open>
  C9, as stated, fails: with three atoms and the exclusion entry \<open>[0, 5]\<close> the
  constructor and get_energy of CoulombModel and electrostatics all return a result,
  the one they return without the entry.
\<close>

theorem invalid_exclusion_counterexample:
  "CoulombModel_init bond_length line_coords [1, - 1, 1] ''line'' [ [0, 5] ]
     = Inr \<lparr>coords = line_coords, charges = [1, - 1, 1], name = ''line'',
            exclude_pairs = [ [0, 5] ], shift = Some (- 3 / 2)\<rparr>
   \<and> CoulombModel_get_energy bond_length
       \<lparr>coords = line_coords, charges = [1, - 1, 1], name = ''line'',
        exclude_pairs = [ [0, 5] ], shift = Some (- 3 / 2)\<rparr> line_coords False = Inr (- 3 / 2)
   \<and> electrostatics bond_length line_sample [ [0, 5] ] []
     = Inr (total_forces bond_length line_sample [] [], total_hess bond_length line_sample [] [])"
proof -
  have "electrostatics bond_length line_sample [ [0, 5] ] []
        = electrostatics bond_length line_sample [] []"
    by (rule electrostatics_cong) (simp add: excluded_def line_sample_def)
  also have "\<dots> = Inr (total_forces bond_length line_sample [] [],
                          total_hess bond_length line_sample [] [])"
    using electrostatics_result[of line_sample bond_length "[]" "[]"] line_distances
    by (simp add: bond_length_ok) (simp add: line_sample_def)
  finally show ?thesis
    by (simp add: CoulombModel_init_def CoulombModel_get_energy_def
        coulomb_energy_sum[OF line_pair_distances_invalid] line_energy_invalid)
qed

text \<open>
  C9, amended: an exclusion entry with an index below 0 or not below the number of
  atoms is ignored: get_energy of a CoulombModel and electrostatics return what they
  return without the entry.
\<close>

theorem invalid_exclusion_ignored:
  assumes "a < 0 \<or> int (length (charges self)) \<le> a \<or> b < 0 \<or> int (length (charges self)) \<le> b"
    and "a < 0 \<or> int (length (ac smp)) \<le> a \<or> b < 0 \<or> int (length (ac smp)) \<le> b"
  shows "CoulombModel_get_energy ic (self\<lparr>exclude_pairs := ep1 @ [a, b] # ep2\<rparr>) x s
     = CoulombModel_get_energy ic (self\<lparr>exclude_pairs := ep1 @ ep2\<rparr>) x s
   \<and> electrostatics ic smp (ep1 @ [a, b] # ep2) et = electrostatics ic smp (ep1 @ ep2) et"
  using coulomb_get_energy_cong[of self "ep1 @ [a, b] # ep2" "ep1 @ ep2" ic x s]
    electrostatics_cong[of smp "ep1 @ [a, b] # ep2" "ep1 @ ep2" ic et]
    excluded_out_of_range[OF assms(1)] excluded_out_of_range[OF assms(2)]
  by blast

theorem invalid_exclusion_ignored_witness:
  "CoulombModel_get_energy bond_length
       \<lparr>coords = line_coords, charges = [1, - 1, 1], name = ''line'',
        exclude_pairs = [ [0, 1], [0, 5] ], shift = Some 1\<rparr> line_coords True
     = CoulombModel_get_energy bond_length
       \<lparr>coords = line_coords, charges = [1, - 1, 1], name = ''line'',
        exclude_pairs = [ [0, 1] ], shift = Some 1\<rparr> line_coords True
   \<and> electrostatics bond_length line_sample [ [0, 1], [0, 5] ] []
     = electrostatics bond_length line_sample [ [0, 1] ] []"
  using invalid_exclusion_ignored [of 0
      "\<lparr>coords = line_coords, charges = [1, - 1, 1], name = ''line'',
        exclude_pairs = [], shift = Some 1\<rparr>" 5 line_sample bond_length "[ [0, 1] ]" "[]"
      line_coords True "[]"]
  by (simp add: line_sample_def)

end
